theory Spec2Isabelle
  imports Complex_Main "HOL-Library.Log_Nat"
begin

section \<open>Strings, class lists and errors\<close>

text \<open>
  An element of the page is identified by a number (DOM identity). Class names, labels and
  messages are Isabelle strings; the value of a form control is a list of UTF-16 code
  units, since \<^verbatim>\<open>trim\<close> and the character class \<^verbatim>\<open>\s\<close> are defined on code units.
\<close>

type_synonym elem = nat
type_synonym jsstring = "nat list"

datatype error = ReferenceError | TypeError

definition js :: "string \<Rightarrow> jsstring" where
  "js s = map of_char s"

text \<open>A \<^verbatim>\<open>classList\<close> is an ordered list of tokens without duplicates.\<close>

definition tokenAdd :: "string list \<Rightarrow> string \<Rightarrow> string list" where
  "tokenAdd cl c = (if c \<in> set cl then cl else cl @ [c])"

definition tokenRemove :: "string list \<Rightarrow> string list \<Rightarrow> string list" where
  "tokenRemove cl cs = filter (\<lambda>c. c \<notin> set cs) cl"

definition tokenToggle :: "string list \<Rightarrow> string \<Rightarrow> string list" where
  "tokenToggle cl c = (if c \<in> set cl then tokenRemove cl [c] else cl @ [c])"

text \<open>
  ECMAScript white space and line terminators: TAB, LF, VT, FF, CR, SP, NBSP, U+1680,
  U+2000 to U+200A, U+2028, U+2029, U+202F, U+205F, U+3000 and U+FEFF. Both
  \<^verbatim>\<open>String.prototype.trim\<close> and \<^verbatim>\<open>\s\<close> use this set.
\<close>

definition isWhiteSpace :: "nat \<Rightarrow> bool" where
  "isWhiteSpace c =
     (c \<in> set [9, 10, 11, 12, 13, 32, 160, 5760, 8232, 8233, 8239, 8287, 12288, 65279]
      \<or> (8192 \<le> c \<and> c \<le> 8202))"

definition trim :: "jsstring \<Rightarrow> jsstring" where
  "trim s = rev (dropWhile isWhiteSpace (rev (dropWhile isWhiteSpace s)))"

section \<open>Numbers\<close>

text \<open>
  A JavaScript number is an IEEE 754 binary64 value. The finite numbers are the rationals
  \<open>m * 2 ^ e\<close> with an integer \<open>m\<close> of magnitude below \<open>2 ^ 53\<close> and \<open>e\<close> from -1074 to 971;
  they are modelled as these rationals, the two zeros as the one rational 0. The not-a-number
  and the infinities are not modelled: the arithmetic of the program is one remainder by
  300 and one product with 0.1, whose results are finite whenever the offset is.

  ECMAScript defines an arithmetic operation as the exact operation on the mathematical
  values followed by the conversion of the result to a number, which rounds to the nearest
  number and, of two nearest ones, to the one with the even significand.
  \<open>roundTiesToEven\<close> is this rounding to an integer, \<open>ilog2 x\<close> is the binary exponent
  of \<open>x\<close> (the \<open>k\<close> with \<open>2 ^ k \<le> \<bar>x\<bar> < 2 ^ (k + 1)\<close>, for \<open>x\<close> other than 0), \<open>ulp x\<close> the
  distance between the numbers around \<open>x\<close> (a significand of 53 bits, and \<open>2 ^ - 1074\<close>
  below the smallest normal number \<open>2 ^ - 1022\<close>), and \<open>toDouble x\<close> the number for \<open>x\<close>.
  A numeric literal such as \<^verbatim>\<open>0.1\<close> denotes the number for its decimal value.
\<close>

definition roundTiesToEven :: "rat \<Rightarrow> int" where
  "roundTiesToEven x =
     (if x - of_int \<lfloor>x\<rfloor> < 1 / 2 then \<lfloor>x\<rfloor>
      else if 1 / 2 < x - of_int \<lfloor>x\<rfloor> then \<lfloor>x\<rfloor> + 1
      else if even \<lfloor>x\<rfloor> then \<lfloor>x\<rfloor> else \<lfloor>x\<rfloor> + 1)"

definition ilog2 :: "rat \<Rightarrow> int" where
  "ilog2 x =
     (let k = bitlen (fst (quotient_of \<bar>x\<bar>)) - bitlen (snd (quotient_of \<bar>x\<bar>))
      in if 2 powi k \<le> \<bar>x\<bar> then k else k - 1)"

definition ulp :: "rat \<Rightarrow> rat" where
  "ulp x = 2 powi (max (ilog2 x) (- 1022) - 52)"

definition toDouble :: "rat \<Rightarrow> rat" where
  "toDouble x = ulp x * of_int (roundTiesToEven (x / ulp x))"

text \<open>
  The remainder operator \<^verbatim>\<open>%\<close> truncates the quotient towards zero, so the result has
  the sign of the dividend; \<open>jsRem\<close> is the exact remainder, \<open>remainder\<close> the operator.
  The operator \<^verbatim>\<open>*\<close> is \<open>multiply\<close>.
\<close>

definition towardZero :: "rat \<Rightarrow> int" where
  "towardZero q = (if q < 0 then \<lceil>q\<rceil> else \<lfloor>q\<rfloor>)"

definition jsRem :: "rat \<Rightarrow> rat \<Rightarrow> rat" where
  "jsRem a b = a - b * of_int (towardZero (a / b))"

definition remainder :: "rat \<Rightarrow> rat \<Rightarrow> rat" where
  "remainder n d = toDouble (jsRem n d)"

definition multiply :: "rat \<Rightarrow> rat \<Rightarrow> rat" where
  "multiply x y = toDouble (x * y)"

section \<open>Regular expressions\<close>

datatype regex =
    Null
  | Eps
  | Chars "nat \<Rightarrow> bool"
  | Alt regex regex
  | Seq regex regex
  | Star regex

definition Plus :: "regex \<Rightarrow> regex" where
  "Plus r = Seq r (Star r)"

fun nullable :: "regex \<Rightarrow> bool" where
  "nullable Null = False"
| "nullable Eps = True"
| "nullable (Chars p) = False"
| "nullable (Alt r s) = (nullable r \<or> nullable s)"
| "nullable (Seq r s) = (nullable r \<and> nullable s)"
| "nullable (Star r) = True"

fun deriv :: "nat \<Rightarrow> regex \<Rightarrow> regex" where
  "deriv c Null = Null"
| "deriv c Eps = Null"
| "deriv c (Chars p) = (if p c then Eps else Null)"
| "deriv c (Alt r s) = Alt (deriv c r) (deriv c s)"
| "deriv c (Seq r s) =
     (if nullable r then Alt (Seq (deriv c r) s) (deriv c s) else Seq (deriv c r) s)"
| "deriv c (Star r) = Seq (deriv c r) (Star r)"

text \<open>
  \<^verbatim>\<open>regex.test(s)\<close> for a pattern anchored by \<^verbatim>\<open>^\<close> and \<^verbatim>\<open>$\<close> (no flags): the whole
  string belongs to the language of the pattern.
\<close>

fun test :: "regex \<Rightarrow> jsstring \<Rightarrow> bool" where
  "test r [] = nullable r"
| "test r (c # cs) = test (deriv c r) cs"

text \<open>The class \<^verbatim>\<open>[^\s@]\<close>; 64 is the at sign, 46 the full stop.\<close>

definition notSpaceAt :: "nat \<Rightarrow> bool" where
  "notSpaceAt c = (\<not> isWhiteSpace c \<and> c \<noteq> 64)"

definition emailRegex :: regex where
  "emailRegex =
     Seq (Plus (Chars notSpaceAt))
       (Seq (Chars (\<lambda>c. c = 64))
         (Seq (Plus (Chars notSpaceAt))
           (Seq (Chars (\<lambda>c. c = 46)) (Plus (Chars notSpaceAt)))))"

text \<open>
  What a pattern means, independently of the matcher: the set of strings it matches.
\<close>

inductive_set repeat :: "jsstring set \<Rightarrow> jsstring set" for A :: "jsstring set" where
  none: "[] \<in> repeat A"
| more: "u \<in> A \<Longrightarrow> v \<in> repeat A \<Longrightarrow> u @ v \<in> repeat A"

fun matches :: "regex \<Rightarrow> jsstring set" where
  "matches Null = {}"
| "matches Eps = {[]}"
| "matches (Chars p) = {[c] | c. p c}"
| "matches (Alt r s) = matches r \<union> matches s"
| "matches (Seq r s) = {u @ v | u v. u \<in> matches r \<and> v \<in> matches s}"
| "matches (Star r) = repeat (matches r)"

section \<open>The page and the state of the program\<close>

text \<open>
  An entry of a delivery of the intersection observer, the observer itself with its
  options and the elements \<^verbatim>\<open>observe\<close> was called with (one entry per call, in order), and
  the fields of a \<^verbatim>\<open>ScrollAnimator\<close>; \<^verbatim>\<open>animatedElements\<close> is a \<^verbatim>\<open>Set\<close>, kept in
  insertion order.
\<close>

record entry =
  target :: elem
  isIntersecting :: bool

record intersectionObserver =
  threshold :: rat
  rootMargin :: string
  targets :: "elem list"

record animator =
  observer :: "intersectionObserver option"
  animatedElements :: "elem list"

text \<open>
  What the form handler reads from a form: its \<^verbatim>\<open>.form-input\<close> controls in document order
  and the result of \<^verbatim>\<open>querySelector('button[type="submit"]')\<close>. A banner created by
  \<^verbatim>\<open>showNotification\<close>, a card as \<^verbatim>\<open>getProjectData\<close> reads it, and the modal built
  from the data.
\<close>

record form =
  inputs :: "elem list"
  submitButton :: "elem option"

record notification =
  nid :: nat
  className :: string
  message :: string
  ntransform :: string

record detail =
  overview :: string
  features :: "string list"
  challenges :: string
  demoLink :: string
  githubLink :: string

text \<open>
  The result of \<^verbatim>\<open>projectDetails[title]\<close>: an own property of the object literal, a
  property inherited from \<^verbatim>\<open>Object.prototype\<close>, or \<^verbatim>\<open>undefined\<close>.
\<close>

datatype property = Own detail | Inherited string | Undefined

record card =
  title :: string
  description :: string
  techTags :: "string list"
  img :: string

record projectData =
  ptitle :: string
  pdescription :: string
  tech :: "string list"
  pimage :: string
  details :: property

record modal =
  mid :: nat
  content :: projectData
  opacity :: string

text \<open>Closures handed to \<^verbatim>\<open>setTimeout\<close>, one constructor per arrow function.\<close>

datatype callback =
    RevealCb elem
  | SettleCb elem
  | HeroCb elem
  | LoadingDoneCb
  | SubmitResumeCb form elem string
  | NotifyInCb nat
  | NotifyOutCb nat
  | NotifyRemoveCb nat
  | ModalInCb nat
  | ModalRemoveCb nat

text \<open>Registered event listeners, with the values their closures captured.\<close>

datatype listener =
    AnimatorEvents
  | AnimatorLoad
  | PageLoading
  | MobileMenu elem elem "elem list"
  | SmoothScrolling
  | FormHandler form
  | ScrollEffects "elem option"
  | LoadingState
  | ProjectModals

text \<open>
  The state: what the environment provides (the observation primitive, the stored theme,
  the colour scheme), the markup (the elements in document order, the body, the contact
  form), the properties of the elements that the program reads or writes, and what the
  program has created: banners and modals in the document in the order they were
  appended, pending timers with the delay given to \<^verbatim>\<open>setTimeout\<close>, the animator and
  the listeners. \<^verbatim>\<open>fieldErrors p\<close> lists the messages of the \<^verbatim>\<open>.field-error\<close> elements
  under node \<^verbatim>\<open>p\<close>, the first one being the one \<^verbatim>\<open>querySelector\<close> finds.
\<close>

record world =
  hasIntersectionObserver :: bool
  savedTheme :: "string option"
  prefersDark :: bool
  elements :: "elem list"
  body :: elem
  contactForm :: "form option"
  classList :: "elem \<Rightarrow> string list"
  href :: "elem \<Rightarrow> string option"
  styleTransform :: "elem \<Rightarrow> string"
  rectTop :: "elem \<Rightarrow> rat"
  ftype :: "elem \<Rightarrow> string"
  required :: "elem \<Rightarrow> bool"
  fvalue :: "elem \<Rightarrow> jsstring"
  defaultValue :: "elem \<Rightarrow> jsstring"
  parentNode :: "elem \<Rightarrow> elem option"
  fieldErrors :: "elem \<Rightarrow> string list"
  textContent :: "elem \<Rightarrow> string"
  disabled :: "elem \<Rightarrow> bool"
  bodyOverflow :: string
  notifications :: "notification list"
  modals :: "modal list"
  nextId :: nat
  timers :: "(rat \<times> callback) list"
  scrollAnimator :: "animator option"
  listeners :: "listener list"

definition addClass :: "elem \<Rightarrow> string \<Rightarrow> world \<Rightarrow> world" where
  "addClass e c w = w\<lparr>classList := (classList w)(e := tokenAdd (classList w e) c)\<rparr>"

definition removeClass :: "elem \<Rightarrow> string list \<Rightarrow> world \<Rightarrow> world" where
  "removeClass e cs w = w\<lparr>classList := (classList w)(e := tokenRemove (classList w e) cs)\<rparr>"

definition toggleClass :: "elem \<Rightarrow> string \<Rightarrow> world \<Rightarrow> world" where
  "toggleClass e c w = w\<lparr>classList := (classList w)(e := tokenToggle (classList w e) c)\<rparr>"

definition hasClass :: "world \<Rightarrow> elem \<Rightarrow> string \<Rightarrow> bool" where
  "hasClass w e c = (c \<in> set (classList w e))"

text \<open>Selectors made of class names: the first element, or all elements, with a class.\<close>

definition querySelector :: "string \<Rightarrow> world \<Rightarrow> elem option" where
  "querySelector c w = find (\<lambda>e. hasClass w e c) (elements w)"

definition querySelectorAll :: "string list \<Rightarrow> world \<Rightarrow> elem list" where
  "querySelectorAll cs w = filter (\<lambda>e. list_ex (hasClass w e) cs) (elements w)"

definition setTimeout :: "callback \<Rightarrow> rat \<Rightarrow> world \<Rightarrow> world" where
  "setTimeout cb d w = w\<lparr>timers := timers w @ [(d, cb)]\<rparr>"

section \<open>ScrollAnimator\<close>

text \<open>
  \<^verbatim>\<open>new IntersectionObserver\<close> is a reference to a global that need not exist. The
  sweep \<^verbatim>\<open>observeElements\<close> visits the elements carrying an animation class;
  \<^verbatim>\<open>this.observer.observe\<close> on the initial \<^verbatim>\<open>null\<close> would throw. The constructor runs
  \<^verbatim>\<open>createObserver\<close>, \<^verbatim>\<open>bindEvents\<close> and \<^verbatim>\<open>animateOnLoad\<close>; the latter two only
  register listeners.
\<close>

definition createObserver :: "world \<Rightarrow> animator \<Rightarrow> error + animator" where
  "createObserver w a =
     (if hasIntersectionObserver w
      then Inr (a\<lparr>observer := Some \<lparr>threshold = toDouble (1 / 10), rootMargin = ''0px'',
                                      targets = []\<rparr>\<rparr>)
      else Inl ReferenceError)"

definition animationClasses :: "string list" where
  "animationClasses =
     [''animate-fade-up'', ''animate-slide-up'', ''animate-slide-left'',
      ''animate-slide-right'', ''animate-zoom-in'', ''animate-fade-in'']"

fun observeEach :: "elem list \<Rightarrow> animator \<Rightarrow> error + animator" where
  "observeEach [] a = Inr a"
| "observeEach (e # es) a =
     (if e \<in> set (animatedElements a) then observeEach es a
      else (case observer a of
              None \<Rightarrow> Inl TypeError
            | Some ob \<Rightarrow>
                observeEach es
                  (a\<lparr>observer := Some (ob\<lparr>targets := targets ob @ [e]\<rparr>),
                     animatedElements := animatedElements a @ [e]\<rparr>)))"

definition observeElements :: "world \<Rightarrow> animator \<Rightarrow> error + animator" where
  "observeElements w a = observeEach (querySelectorAll animationClasses w) a"

text \<open>
  The constant \<^verbatim>\<open>delay\<close> of \<^verbatim>\<open>handleIntersect\<close>, \<^verbatim>\<open>(rect.top % 300) * 0.1\<close>, as a function of
  the top offset.
\<close>

definition delay :: "rat \<Rightarrow> rat" where
  "delay y = multiply (remainder y 300) (toDouble (1 / 10))"

definition handleIntersect :: "elem \<Rightarrow> world \<Rightarrow> world" where
  "handleIntersect e w = setTimeout (RevealCb e) (delay (rectTop w e)) w"

fun observerCallback :: "entry list \<Rightarrow> world \<Rightarrow> world" where
  "observerCallback [] w = w"
| "observerCallback (en # ens) w =
     observerCallback ens (if isIntersecting en then handleIntersect (target en) w else w)"

definition revealCb :: "elem \<Rightarrow> world \<Rightarrow> world" where
  "revealCb e w =
     (let w1 = addClass e ''animate-visible'' w
      in if hasClass w1 e ''animate-fade-up'' \<or> hasClass w1 e ''animate-slide-up''
            \<or> hasClass w1 e ''animate-slide-left'' \<or> hasClass w1 e ''animate-slide-right''
         then setTimeout (SettleCb e) 600 w1 else w1)"

definition settleCb :: "elem \<Rightarrow> world \<Rightarrow> world" where
  "settleCb e w = w\<lparr>styleTransform := (styleTransform w)(e := ''none'')\<rparr>"

definition newScrollAnimator :: "world \<Rightarrow> error + world" where
  "newScrollAnimator w =
     (case createObserver w \<lparr>observer = None, animatedElements = []\<rparr> of
        Inl err \<Rightarrow> Inl err
      | Inr a \<Rightarrow>
          Inr (w\<lparr>scrollAnimator := Some a,
                 listeners := listeners w @ [AnimatorEvents, AnimatorLoad]\<rparr>))"

text \<open>
  \<^verbatim>\<open>smoothScroll\<close>: only its writes to class lists are state here. When the menu is
  open and there is no toggle element, the second \<^verbatim>\<open>classList.remove\<close> throws after the
  first one has happened.
\<close>

definition smoothScroll :: "elem \<Rightarrow> bool \<Rightarrow> world \<Rightarrow> world" where
  "smoothScroll link found w =
     (case href w link of
        None \<Rightarrow> w
      | Some targetId \<Rightarrow>
          if targetId = [] \<or> targetId = ''#'' then w
          else if found then
            (case querySelector ''nav-menu'' w of
               None \<Rightarrow> w
             | Some navMenu \<Rightarrow>
                 if hasClass w navMenu ''active'' then
                   (let w1 = removeClass navMenu [''active''] w
                    in case querySelector ''nav-toggle'' w of
                         None \<Rightarrow> w1
                       | Some navToggle \<Rightarrow> removeClass navToggle [''active''] w1)
                 else w)
          else w)"

definition whenFound :: "elem option \<Rightarrow> (elem \<Rightarrow> world \<Rightarrow> world) \<Rightarrow> world \<Rightarrow> world" where
  "whenFound x f w = (case x of None \<Rightarrow> w | Some e \<Rightarrow> f e w)"

definition animateOnLoad :: "world \<Rightarrow> world" where
  "animateOnLoad w =
     (let heroTitle = querySelector ''hero-title'' w;
          heroSubtitle = querySelector ''hero-subtitle'' w;
          heroDescription = querySelector ''hero-description'' w;
          heroButtons = querySelector ''hero-buttons'' w;
          w1 = whenFound heroTitle (\<lambda>e. setTimeout (HeroCb e) 200) w;
          w2 = whenFound heroSubtitle (\<lambda>e. setTimeout (HeroCb e) 400) w1;
          w3 = whenFound heroDescription (\<lambda>e. setTimeout (HeroCb e) 600) w2
      in whenFound heroButtons (\<lambda>e. setTimeout (HeroCb e) 800) w3)"

definition heroCb :: "elem \<Rightarrow> world \<Rightarrow> world" where
  "heroCb e w = addClass e ''animate-visible'' w"

definition loadingDoneCb :: "world \<Rightarrow> world" where
  "loadingDoneCb w = removeClass (body w) [''loading''] w"

section \<open>PortfolioApp: the form validator\<close>

text \<open>
  \<^verbatim>\<open>validateField\<close> returns its verdict and the new state. \<^verbatim>\<open>showNotification\<close> removes
  the first banner in the document, if any, and appends a new one. \<^verbatim>\<open>form.reset()\<close> gives
  every control its default value. \<^verbatim>\<open>handleFormSubmission\<close> reads
  \<^verbatim>\<open>submitButton.textContent\<close> first, which throws when the form has no such button; the
  part after \<^verbatim>\<open>await\<close> is the callback of the 2000 ms timer.
\<close>

definition clearFieldError :: "elem \<Rightarrow> world \<Rightarrow> world" where
  "clearFieldError field w =
     (case parentNode w field of
        None \<Rightarrow> w
      | Some p \<Rightarrow> w\<lparr>fieldErrors := (fieldErrors w)(p := drop 1 (fieldErrors w p))\<rparr>)"

definition showFieldError :: "elem \<Rightarrow> string \<Rightarrow> world \<Rightarrow> world" where
  "showFieldError field msg w =
     (let w1 = clearFieldError field w
      in case parentNode w1 field of
           None \<Rightarrow> w1
         | Some p \<Rightarrow> w1\<lparr>fieldErrors := (fieldErrors w1)(p := fieldErrors w1 p @ [msg])\<rparr>)"

definition validateField :: "elem \<Rightarrow> world \<Rightarrow> bool \<times> world" where
  "validateField field w =
     (let val = trim (fvalue w field);
          w1 = removeClass field [''error'', ''success''] w
      in if ftype w field = ''email'' \<and> \<not> test emailRegex val
         then (False, showFieldError field ''Please enter a valid email address''
                        (addClass field ''error'' w1))
         else if required w field \<and> val = []
         then (False, showFieldError field ''This field is required''
                        (addClass field ''error'' w1))
         else (True, clearFieldError field (addClass field ''success'' w1)))"

fun validateAll :: "elem list \<Rightarrow> world \<Rightarrow> bool \<times> world" where
  "validateAll [] w = (True, w)"
| "validateAll (i # is) w =
     (let (ok, w1) = validateField i w;
          (rest, w2) = validateAll is w1
      in (ok \<and> rest, w2))"

definition showNotification :: "string \<Rightarrow> string \<Rightarrow> world \<Rightarrow> world" where
  "showNotification msg ty w =
     (let w1 = w\<lparr>notifications := drop 1 (notifications w)\<rparr>;
          n = \<lparr>nid = nextId w1, className = ''notification notification-'' @ ty,
               message = msg, ntransform = ''translateX(400px)''\<rparr>;
          w2 = w1\<lparr>notifications := notifications w1 @ [n], nextId := Suc (nextId w1)\<rparr>
      in setTimeout (NotifyOutCb (nid n)) 5000 (setTimeout (NotifyInCb (nid n)) 100 w2))"

definition setTransform :: "nat \<Rightarrow> string \<Rightarrow> notification \<Rightarrow> notification" where
  "setTransform i t n = (if nid n = i then n\<lparr>ntransform := t\<rparr> else n)"

definition notifyInCb :: "nat \<Rightarrow> world \<Rightarrow> world" where
  "notifyInCb i w = w\<lparr>notifications := map (setTransform i ''translateX(0)'') (notifications w)\<rparr>"

definition notifyOutCb :: "nat \<Rightarrow> world \<Rightarrow> world" where
  "notifyOutCb i w =
     setTimeout (NotifyRemoveCb i) 300
       (w\<lparr>notifications := map (setTransform i ''translateX(400px)'') (notifications w)\<rparr>)"

definition notifyRemoveCb :: "nat \<Rightarrow> world \<Rightarrow> world" where
  "notifyRemoveCb i w = w\<lparr>notifications := filter (\<lambda>n. nid n \<noteq> i) (notifications w)\<rparr>"

definition resetForm :: "form \<Rightarrow> world \<Rightarrow> world" where
  "resetForm fm w =
     w\<lparr>fvalue := (\<lambda>e. if e \<in> set (inputs fm) then defaultValue w e else fvalue w e)\<rparr>"

definition handleFormSubmission :: "form \<Rightarrow> world \<Rightarrow> error + world" where
  "handleFormSubmission fm w =
     (case submitButton fm of
        None \<Rightarrow> Inl TypeError
      | Some button \<Rightarrow>
          (let originalText = textContent w button;
               (isValid, w1) = validateAll (inputs fm) w
           in if \<not> isValid
              then Inr (showNotification ''Please fix the errors in the form'' ''error'' w1)
              else Inr (setTimeout (SubmitResumeCb fm button originalText) 2000
                          (w1\<lparr>textContent := (textContent w1)(button := ''Sending...''),
                              disabled := (disabled w1)(button := True)\<rparr>))))"

definition submitResumeCb :: "form \<Rightarrow> elem \<Rightarrow> string \<Rightarrow> world \<Rightarrow> world" where
  "submitResumeCb fm button originalText w =
     (let w1 = showNotification ''Message sent successfully! I'll get back to you soon.''
                 ''success'' w;
          w2 = resetForm fm w1;
          w3 = fold (\<lambda>i. removeClass i [''success'']) (inputs fm) w2
      in w3\<lparr>textContent := (textContent w3)(button := originalText),
            disabled := (disabled w3)(button := False)\<rparr>)"

section \<open>PortfolioApp: menu, navigation and loading state\<close>

definition menuToggle :: "elem \<Rightarrow> elem \<Rightarrow> world \<Rightarrow> world" where
  "menuToggle navToggle navMenu w =
     (let w1 = toggleClass navToggle ''active'' (toggleClass navMenu ''active'' w)
      in w1\<lparr>bodyOverflow := (if hasClass w1 navMenu ''active'' then ''hidden'' else [])\<rparr>)"

definition menuClose :: "elem \<Rightarrow> elem \<Rightarrow> world \<Rightarrow> world" where
  "menuClose navToggle navMenu w =
     (removeClass navToggle [''active''] (removeClass navMenu [''active''] w))
       \<lparr>bodyOverflow := []\<rparr>"

definition highlight :: "string \<Rightarrow> elem \<Rightarrow> world \<Rightarrow> world" where
  "highlight currentSection link w =
     (let w1 = removeClass link [''active''] w
      in if href w1 link = Some (''#'' @ currentSection) then addClass link ''active'' w1
         else w1)"

definition updateActiveNavLink :: "string \<Rightarrow> world \<Rightarrow> world" where
  "updateActiveNavLink currentSection w =
     fold (highlight currentSection) (querySelectorAll [''nav-link''] w) w"

section \<open>PortfolioApp: project modals\<close>

definition projectDetails :: "(string \<times> detail) list" where
  "projectDetails =
     [(''E-Commerce Platform'',
       \<lparr>overview = ''Platform e-commerce modern dengan React, Node.js, dan integrasi payment gateway yang lengkap.'',
        features = [''User authentication dan authorization'',
                    ''Shopping cart dan checkout process'',
                    ''Payment gateway integration'',
                    ''Admin dashboard untuk management'',
                    ''Real-time inventory tracking''],
        challenges = ''Mengintegrasikan multiple payment methods dan menjaga keamanan transaksi.'',
        demoLink = ''#'', githubLink = ''#''\<rparr>),
      (''Warung Makan Website'',
       \<lparr>overview = ''A complete website for a local restaurant featuring menu display, online ordering, and customer management.'',
        features = [''Online Menu Display'', ''Order Management System'',
                    ''WhatsApp Integration'', ''Admin Dashboard''],
        challenges = ''Creating a responsive design that works well on all mobile devices.'',
        demoLink = ''#'', githubLink = ''#''\<rparr>),
      (''Finance Company Logo'',
       \<lparr>overview = ''Professional logo design focusing on trust and stability.'',
        features = [''Vector Format'', ''Brand Guidelines'', ''Multiple Variations'',
                    ''Social Media Assets''],
        challenges = ''Conveying trust and modernism simultaneously.'',
        demoLink = ''#'', githubLink = ''#''\<rparr>)]"

definition defaultDetail :: "string \<Rightarrow> detail" where
  "defaultDetail desc =
     \<lparr>overview = desc, features = [''Features details available upon request''],
      challenges = ''Standard development challenges'', demoLink = ''#'', githubLink = ''#''\<rparr>"

text \<open>
  Property access \<^verbatim>\<open>obj[key]\<close> on an object literal looks at the own properties first and
  then at its prototype, \<^verbatim>\<open>Object.prototype\<close>, whose properties are listed here; each of
  them is a function or an object, hence truthy.
\<close>

definition objectPrototype :: "string list" where
  "objectPrototype =
     [''constructor'', ''__defineGetter__'', ''__defineSetter__'', ''hasOwnProperty'',
      ''__lookupGetter__'', ''__lookupSetter__'', ''isPrototypeOf'',
      ''propertyIsEnumerable'', ''toString'', ''valueOf'', ''__proto__'', ''toLocaleString'']"

definition getProperty :: "(string \<times> detail) list \<Rightarrow> string \<Rightarrow> property" where
  "getProperty obj key =
     (case map_of obj key of
        Some d \<Rightarrow> Own d
      | None \<Rightarrow> if key \<in> set objectPrototype then Inherited key else Undefined)"

definition getProjectData :: "card \<Rightarrow> projectData" where
  "getProjectData projectCard =
     \<lparr>ptitle = title projectCard, pdescription = description projectCard,
      tech = techTags projectCard, pimage = img projectCard,
      details = (case getProperty projectDetails (title projectCard) of
                   Undefined \<Rightarrow> Own (defaultDetail (description projectCard))
                 | p \<Rightarrow> p)\<rparr>"

text \<open>
  \<^verbatim>\<open>showProjectModal\<close> builds the markup from the data before it touches the document;
  \<^verbatim>\<open>details.features.map\<close> throws when \<^verbatim>\<open>details\<close> has no feature list.
\<close>

definition showProjectModal :: "projectData \<Rightarrow> world \<Rightarrow> error + world" where
  "showProjectModal pd w =
     (case details pd of
        Own d \<Rightarrow>
          Inr (setTimeout (ModalInCb (nextId w)) 100
                 (w\<lparr>modals := modals w @ [\<lparr>mid = nextId w, content = pd, opacity = ''0''\<rparr>],
                    nextId := Suc (nextId w), bodyOverflow := ''hidden''\<rparr>))
      | Inherited k \<Rightarrow> Inl TypeError
      | Undefined \<Rightarrow> Inl TypeError)"

definition setOpacity :: "nat \<Rightarrow> string \<Rightarrow> modal \<Rightarrow> modal" where
  "setOpacity i v m = (if mid m = i then m\<lparr>opacity := v\<rparr> else m)"

definition modalInCb :: "nat \<Rightarrow> world \<Rightarrow> world" where
  "modalInCb i w = w\<lparr>modals := map (setOpacity i ''1'') (modals w)\<rparr>"

definition closeProjectModal :: "nat \<Rightarrow> world \<Rightarrow> world" where
  "closeProjectModal i w =
     setTimeout (ModalRemoveCb i) 300 (w\<lparr>modals := map (setOpacity i ''0'') (modals w)\<rparr>)"

definition modalRemoveCb :: "nat \<Rightarrow> world \<Rightarrow> world" where
  "modalRemoveCb i w = w\<lparr>modals := filter (\<lambda>m. mid m \<noteq> i) (modals w), bodyOverflow := []\<rparr>"

definition projectLinkClick :: "string option \<Rightarrow> card option \<Rightarrow> world \<Rightarrow> error + world" where
  "projectLinkClick h projectCard w =
     (if h = Some ''#'' \<or> h = Some []
      then (case projectCard of
              None \<Rightarrow> Inl TypeError
            | Some c \<Rightarrow> showProjectModal (getProjectData c) w)
      else Inr w)"

section \<open>PortfolioApp: initialisation\<close>

definition addListener :: "listener \<Rightarrow> world \<Rightarrow> world" where
  "addListener l w = w\<lparr>listeners := listeners w @ [l]\<rparr>"

definition initializeMobileMenu :: "world \<Rightarrow> error + world" where
  "initializeMobileMenu w =
     (case (querySelector ''nav-toggle'' w, querySelector ''nav-menu'' w) of
        (Some navToggle, Some navMenu) \<Rightarrow>
          Inr (addListener (MobileMenu navToggle navMenu (querySelectorAll [''nav-link''] w)) w)
      | _ \<Rightarrow> Inr w)"

definition initializeSmoothScrolling :: "world \<Rightarrow> error + world" where
  "initializeSmoothScrolling w = Inr (addListener SmoothScrolling w)"

definition initializeFormHandler :: "world \<Rightarrow> error + world" where
  "initializeFormHandler w =
     (case contactForm w of None \<Rightarrow> Inr w | Some fm \<Rightarrow> Inr (addListener (FormHandler fm) w))"

definition initializeScrollEffects :: "world \<Rightarrow> error + world" where
  "initializeScrollEffects w = Inr (addListener (ScrollEffects (querySelector ''navbar'' w)) w)"

text \<open>
  The methods \<^verbatim>\<open>toggleTheme\<close> and \<^verbatim>\<open>createThemeToggle\<close> are commented out in the class
  body, so calling either is a call of \<^verbatim>\<open>undefined\<close>.
\<close>

definition toggleTheme :: "world \<Rightarrow> error + world" where
  "toggleTheme w = Inl TypeError"

definition createThemeToggle :: "world \<Rightarrow> error + world" where
  "createThemeToggle w = Inl TypeError"

definition initializeThemeManager :: "world \<Rightarrow> error + world" where
  "initializeThemeManager w =
     (case (if savedTheme w = Some ''light''
               \<or> ((savedTheme w = None \<or> savedTheme w = Some []) \<and> \<not> prefersDark w)
            then toggleTheme w else Inr w) of
        Inl err \<Rightarrow> Inl err
      | Inr w1 \<Rightarrow> createThemeToggle w1)"

definition initializeLoadingState :: "world \<Rightarrow> error + world" where
  "initializeLoadingState w = Inr (addListener LoadingState w)"

definition initializeSkillBars :: "world \<Rightarrow> error + world" where
  "initializeSkillBars w =
     (case querySelector ''skills'' w of
        None \<Rightarrow> Inr w
      | Some skillsSection \<Rightarrow> if hasIntersectionObserver w then Inr w else Inl ReferenceError)"

definition initializeProjectModals :: "world \<Rightarrow> error + world" where
  "initializeProjectModals w = Inr (addListener ProjectModals w)"

text \<open>A sequence of calls: the first one that throws ends it, and what ran before stays.\<close>

fun calls :: "(world \<Rightarrow> error + world) list \<Rightarrow> world \<Rightarrow> world \<times> error option" where
  "calls [] w = (w, None)"
| "calls (f # fs) w = (case f w of Inl err \<Rightarrow> (w, Some err) | Inr w1 \<Rightarrow> calls fs w1)"

definition initializeInteractiveElements :: "world \<Rightarrow> world \<times> error option" where
  "initializeInteractiveElements w = calls [initializeSkillBars, initializeProjectModals] w"

definition init :: "world \<Rightarrow> world \<times> error option" where
  "init w =
     (case calls [initializeMobileMenu, initializeSmoothScrolling, initializeFormHandler,
                  initializeScrollEffects, initializeThemeManager, initializeLoadingState] w of
        (w1, Some err) \<Rightarrow> (w1, Some err)
      | (w1, None) \<Rightarrow> initializeInteractiveElements w1)"

section \<open>Events and the event loop\<close>

text \<open>
  What the browser can do to the program. \<^verbatim>\<open>StartAnimation\<close> and \<^verbatim>\<open>StartApp\<close> are the
  two \<^verbatim>\<open>DOMContentLoaded\<close> handlers at the end of the source files. \<^verbatim>\<open>Intersect\<close> is
  a delivery of the intersection observer, \<^verbatim>\<open>Timeout i\<close> the expiry of the pending timer
  number \<^verbatim>\<open>i\<close>. \<^verbatim>\<open>Relayout\<close> and \<^verbatim>\<open>InsertElements\<close> are changes of the page that the
  program does not make itself. The other events carry what the handler reads from the
  page at that moment: whether the anchor target exists, whether a click was outside the
  menu, the section the scroll position is in, the text typed, the card of a link.
\<close>

datatype event =
    StartAnimation
  | StartApp
  | DOMContentLoaded
  | Load
  | Resize
  | Intersect "entry list"
  | Timeout nat
  | Relayout "elem \<Rightarrow> rat"
  | InsertElements "elem list"
  | AnchorClick elem bool
  | MenuToggleClick
  | NavLinkClick
  | DocumentClick bool
  | Scroll string
  | Blur elem
  | Input elem jsstring
  | Submit
  | ProjectLinkClick "string option" "card option"
  | ModalClose nat

definition runCallback :: "callback \<Rightarrow> world \<Rightarrow> world" where
  "runCallback cb w =
     (case cb of
        RevealCb e \<Rightarrow> revealCb e w
      | SettleCb e \<Rightarrow> settleCb e w
      | HeroCb e \<Rightarrow> heroCb e w
      | LoadingDoneCb \<Rightarrow> loadingDoneCb w
      | SubmitResumeCb fm b t \<Rightarrow> submitResumeCb fm b t w
      | NotifyInCb i \<Rightarrow> notifyInCb i w
      | NotifyOutCb i \<Rightarrow> notifyOutCb i w
      | NotifyRemoveCb i \<Rightarrow> notifyRemoveCb i w
      | ModalInCb i \<Rightarrow> modalInCb i w
      | ModalRemoveCb i \<Rightarrow> modalRemoveCb i w)"

definition sweep :: "world \<Rightarrow> world" where
  "sweep w =
     (case scrollAnimator w of
        None \<Rightarrow> w
      | Some a \<Rightarrow> (case observeElements w a of
                     Inl err \<Rightarrow> w
                   | Inr a1 \<Rightarrow> w\<lparr>scrollAnimator := Some a1\<rparr>))"

definition orElse :: "error + world \<Rightarrow> world \<Rightarrow> world" where
  "orElse r w = (case r of Inl err \<Rightarrow> w | Inr w1 \<Rightarrow> w1)"

text \<open>
  What one registered listener does with one event; an uncaught error ends the handler.
  The listeners of \<^verbatim>\<open>MicroInteractions\<close> and \<^verbatim>\<open>CursorEffects\<close>, the parallax and
  progress-bar scroll listeners and the navbar styling write inline styles only, and the
  typewriter and particle effects style or create elements of their own; none of them reads
  or writes anything in the state, so they have no part here.
\<close>

definition react :: "event \<Rightarrow> listener \<Rightarrow> world \<Rightarrow> world" where
  "react ev l w =
     (case l of
        AnimatorEvents \<Rightarrow>
          (case ev of
             DOMContentLoaded \<Rightarrow> sweep w
           | Resize \<Rightarrow> sweep w
           | AnchorClick link found \<Rightarrow> smoothScroll link found w
           | _ \<Rightarrow> w)
      | AnimatorLoad \<Rightarrow> (case ev of Load \<Rightarrow> animateOnLoad w | _ \<Rightarrow> w)
      | PageLoading \<Rightarrow>
          (case ev of
             Load \<Rightarrow> setTimeout LoadingDoneCb 1000 (addClass (body w) ''page-loaded'' w)
           | DOMContentLoaded \<Rightarrow> addClass (body w) ''loading'' w
           | _ \<Rightarrow> w)
      | MobileMenu navToggle navMenu navLinks \<Rightarrow>
          (case ev of
             MenuToggleClick \<Rightarrow> menuToggle navToggle navMenu w
           | NavLinkClick \<Rightarrow> menuClose navToggle navMenu w
           | DocumentClick outside \<Rightarrow> if outside then menuClose navToggle navMenu w else w
           | _ \<Rightarrow> w)
      | SmoothScrolling \<Rightarrow> w
      | FormHandler fm \<Rightarrow>
          (case ev of
             Blur field \<Rightarrow> if field \<in> set (inputs fm) then snd (validateField field w) else w
           | Input field v \<Rightarrow> if field \<in> set (inputs fm) then clearFieldError field w else w
           | Submit \<Rightarrow> orElse (handleFormSubmission fm w) w
           | _ \<Rightarrow> w)
      | ScrollEffects navbar \<Rightarrow>
          (case ev of
             Scroll currentSection \<Rightarrow>
               (case navbar of None \<Rightarrow> w | Some n \<Rightarrow> updateActiveNavLink currentSection w)
           | _ \<Rightarrow> w)
      | LoadingState \<Rightarrow>
          (case ev of
             Load \<Rightarrow> setTimeout LoadingDoneCb 1000 (addClass (body w) ''loaded'' w)
           | DOMContentLoaded \<Rightarrow> addClass (body w) ''loading'' w
           | _ \<Rightarrow> w)
      | ProjectModals \<Rightarrow>
          (case ev of
             ProjectLinkClick h c \<Rightarrow> orElse (projectLinkClick h c w) w
           | ModalClose i \<Rightarrow> closeProjectModal i w
           | _ \<Rightarrow> w))"

definition dispatch :: "event \<Rightarrow> world \<Rightarrow> world" where
  "dispatch ev w = fold (react ev) (listeners w) w"

definition step :: "event \<Rightarrow> world \<Rightarrow> world" where
  "step ev w =
     (case ev of
        StartAnimation \<Rightarrow>
          (case newScrollAnimator w of
             Inl err \<Rightarrow> w
           | Inr w1 \<Rightarrow> addListener PageLoading w1)
      | StartApp \<Rightarrow> fst (init w)
      | Intersect ens \<Rightarrow>
          (case scrollAnimator w of None \<Rightarrow> w | Some a \<Rightarrow> observerCallback ens w)
      | Timeout i \<Rightarrow>
          (if i < length (timers w)
           then runCallback (snd (timers w ! i))
                  (w\<lparr>timers := take i (timers w) @ drop (Suc i) (timers w)\<rparr>)
           else w)
      | Relayout f \<Rightarrow> w\<lparr>rectTop := f\<rparr>
      | InsertElements es \<Rightarrow> w\<lparr>elements := elements w @ es\<rparr>
      | Input field v \<Rightarrow> dispatch ev (w\<lparr>fvalue := (fvalue w)(field := v)\<rparr>)
      | _ \<Rightarrow> dispatch ev w)"

definition run :: "event list \<Rightarrow> world \<Rightarrow> world" where
  "run evs w = fold step evs w"

section \<open>A concrete page\<close>

text \<open>
  A small page used to evaluate the definitions: element 1 is a section that slides up,
  element 2 a card that zooms in, 3 and 4 are the name and e-mail inputs of the contact
  form inside container 5, and 6 is the submit button.
\<close>

definition page :: world where
  "page =
     \<lparr>hasIntersectionObserver = True, savedTheme = None, prefersDark = True,
      elements = [0, 1, 2, 3, 4, 5, 6], body = 0,
      contactForm = Some \<lparr>inputs = [3, 4], submitButton = Some 6\<rparr>,
      classList = (\<lambda>e. if e = 1 then [''animate-slide-up'']
                        else if e = 2 then [''project-card'', ''animate-zoom-in'']
                        else if e = 3 \<or> e = 4 then [''form-input''] else []),
      href = (\<lambda>e. None), styleTransform = (\<lambda>e. []),
      rectTop = (\<lambda>e. if e = 1 then 350 else if e = 2 then 1000 else 0),
      ftype = (\<lambda>e. if e = 4 then ''email'' else ''text''),
      required = (\<lambda>e. e = 3 \<or> e = 4),
      fvalue = (\<lambda>e. if e = 3 then js ''Ann'' else if e = 4 then js ''a@b.co'' else []),
      defaultValue = (\<lambda>e. []), parentNode = (\<lambda>e. if e = 3 \<or> e = 4 then Some 5 else None),
      fieldErrors = (\<lambda>e. []), textContent = (\<lambda>e. if e = 6 then ''Send Message'' else []),
      disabled = (\<lambda>e. False), bodyOverflow = [], notifications = [], modals = [],
      nextId = 0, timers = [], scrollAnimator = None, listeners = []\<rparr>"

definition contact :: form where
  "contact = \<lparr>inputs = [3, 4], submitButton = Some 6\<rparr>"

text \<open>Three project cards: one whose title is a key of the table, one whose title is
  not, and one whose title is the name of a property of \<^verbatim>\<open>Object.prototype\<close>.\<close>

definition oddCard :: card where
  "oddCard =
     \<lparr>title = ''constructor'', description = ''A tool that builds things'',
      techTags = [''JavaScript''], img = ''tool.png''\<rparr>"

definition shopCard :: card where
  "shopCard =
     \<lparr>title = ''E-Commerce Platform'', description = ''An online shop'',
      techTags = [''React'', ''Node.js''], img = ''shop.png''\<rparr>"

definition blogCard :: card where
  "blogCard =
     \<lparr>title = ''Travel Blog'', description = ''Notes from the road'',
      techTags = [''HTML''], img = ''blog.png''\<rparr>"

section \<open>Properties\<close>

text \<open>
  An animator is in order when every call of \<^verbatim>\<open>observe\<close> on its observer was for a
  different element, and the elements so registered are those in \<^verbatim>\<open>animatedElements\<close>.
\<close>

definition registered :: "animator \<Rightarrow> bool" where
  "registered a =
     (case observer a of
        None \<Rightarrow> False
      | Some ob \<Rightarrow> targets ob = animatedElements a \<and> distinct (targets ob))"

definition animatorOK :: "world \<Rightarrow> bool" where
  "animatorOK w = (case scrollAnimator w of None \<Rightarrow> True | Some a \<Rightarrow> registered a)"

text \<open>Two states that differ at most in the registered listeners and other fields
  that no property below reads.\<close>

definition sameDocument :: "world \<Rightarrow> world \<Rightarrow> bool" where
  "sameDocument w w1 =
     (scrollAnimator w1 = scrollAnimator w \<and> classList w1 = classList w
      \<and> timers w1 = timers w \<and> modals w1 = modals w
      \<and> hasIntersectionObserver w1 = hasIntersectionObserver w
      \<and> (ProjectModals \<in> set (listeners w1)) = (ProjectModals \<in> set (listeners w))
      \<and> (AnimatorLoad \<in> set (listeners w1)) = (AnimatorLoad \<in> set (listeners w)))"

text \<open>The second state has the contact form of the first and at least its listeners.\<close>

definition keepsForm :: "world \<Rightarrow> world \<Rightarrow> bool" where
  "keepsForm w w1 = (contactForm w1 = contactForm w \<and> set (listeners w) \<subseteq> set (listeners w1))"

definition revealed :: "world \<Rightarrow> elem \<Rightarrow> bool" where
  "revealed w e = hasClass w e ''animate-visible''"

text \<open>Two states that differ at most in class lists and error messages.\<close>

definition onlyMarks :: "world \<Rightarrow> world \<Rightarrow> bool" where
  "onlyMarks w w1 =
     (ftype w1 = ftype w \<and> required w1 = required w \<and> fvalue w1 = fvalue w
      \<and> defaultValue w1 = defaultValue w \<and> textContent w1 = textContent w
      \<and> disabled w1 = disabled w \<and> timers w1 = timers w
      \<and> notifications w1 = notifications w \<and> nextId w1 = nextId w)"

text \<open>The banner element that \<^verbatim>\<open>showNotification\<close> creates.\<close>

definition banner :: "nat \<Rightarrow> string \<Rightarrow> string \<Rightarrow> notification" where
  "banner i ty msg =
     \<lparr>nid = i, className = ''notification notification-'' @ ty, message = msg,
      ntransform = ''translateX(400px)''\<rparr>"

text \<open>
  A callback that does not add \<^verbatim>\<open>animate-visible\<close>; a state none of whose pending
  timers does; two states of which the second has the environment, listeners, animator and
  revealed elements of the first and at most more timers of that kind; and a state in which
  the animator was never constructed.
\<close>

definition plainCallback :: "callback \<Rightarrow> bool" where
  "plainCallback cb = (case cb of RevealCb e \<Rightarrow> False | HeroCb e \<Rightarrow> False | _ \<Rightarrow> True)"

definition plainTimers :: "world \<Rightarrow> bool" where
  "plainTimers w = list_all (\<lambda>t. plainCallback (snd t)) (timers w)"

definition calm :: "world \<Rightarrow> world \<Rightarrow> bool" where
  "calm w w1 =
     (hasIntersectionObserver w1 = hasIntersectionObserver w
      \<and> listeners w1 = listeners w \<and> scrollAnimator w1 = scrollAnimator w
      \<and> revealed w1 = revealed w
      \<and> take (length (timers w)) (timers w1) = timers w
      \<and> list_all (\<lambda>t. plainCallback (snd t)) (drop (length (timers w)) (timers w1)))"

definition quiet :: "world \<Rightarrow> bool" where
  "quiet w =
     (\<not> hasIntersectionObserver w \<and> scrollAnimator w = None
      \<and> AnimatorLoad \<notin> set (listeners w) \<and> plainTimers w)"

text \<open>
  The delay as the specification words it: the offset modulo 300, with the result in the
  range from 0 up to 300, times one tenth.
\<close>

definition flooredMod :: "rat \<Rightarrow> rat \<Rightarrow> rat" where
  "flooredMod y m = y - m * of_int \<lfloor>y / m\<rfloor>"

definition specDelay :: "rat \<Rightarrow> rat" where
  "specDelay y = flooredMod y 300 * (1 / 10)"

section \<open>The arithmetic of numbers\<close>

text \<open>
  The remainder by 300 agrees with the modulus for an offset that is not negative and lies
  between -300 and 0 for a negative one. The conversion to a number moves a value by at
  most half the distance between the numbers around it, and keeps the sign.
\<close>

lemma jsRem_nonneg: "0 \<le> y \<Longrightarrow> jsRem y 300 = flooredMod y 300"
  by (simp add: jsRem_def towardZero_def flooredMod_def)

lemma jsRem_neg:
  assumes "y < 0"
  shows "- 300 < jsRem y 300 \<and> jsRem y 300 \<le> 0"
proof -
  have "of_int \<lceil>y / 300\<rceil> < y / 300 + 1" by linarith
  moreover have "y / 300 \<le> of_int \<lceil>y / 300\<rceil>" by (rule le_of_int_ceiling)
  ultimately show ?thesis using assms by (simp add: jsRem_def towardZero_def) linarith
qed

lemma flooredMod_range: "0 \<le> flooredMod y 300 \<and> flooredMod y 300 < 300"
proof -
  have "of_int \<lfloor>y / 300\<rfloor> \<le> y / 300" by (rule of_int_floor_le)
  moreover have "y / 300 < of_int \<lfloor>y / 300\<rfloor> + 1" by linarith
  ultimately show ?thesis by (simp add: flooredMod_def)
qed

lemma roundTiesToEven_error: "\<bar>of_int (roundTiesToEven z) - z\<bar> \<le> 1 / 2"
proof -
  have "of_int \<lfloor>z\<rfloor> \<le> z" "z < of_int \<lfloor>z\<rfloor> + 1" by linarith+
  then show ?thesis by (auto simp: roundTiesToEven_def)
qed

lemma roundTiesToEven_nonpos:
  assumes "z \<le> 0"
  shows "roundTiesToEven z \<le> 0"
proof (cases "\<lfloor>z\<rfloor> = 0")
  case True
  have "of_int \<lfloor>z\<rfloor> \<le> z" by linarith
  with True assms have "z = 0" by simp
  then show ?thesis by (simp add: roundTiesToEven_def)
next
  case False
  have "\<lfloor>z\<rfloor> \<le> 0" using assms by linarith
  with False have "\<lfloor>z\<rfloor> + 1 \<le> 0" by arith
  then show ?thesis by (simp add: roundTiesToEven_def)
qed

lemma ilog2_le:
  assumes "x \<noteq> 0"
  shows "2 powi ilog2 x \<le> \<bar>x\<bar>"
proof -
  obtain p q where pq: "quotient_of \<bar>x\<bar> = (p, q)" by (cases "quotient_of \<bar>x\<bar>")
  have q: "0 < q" using quotient_of_denom_pos [OF pq] .
  have x: "\<bar>x\<bar> = of_int p / of_int q" using quotient_of_div [OF pq] .
  have p: "0 < p"
  proof (rule ccontr)
    assume "\<not> 0 < p"
    then have "(of_int p :: rat) / of_int q \<le> 0" using q by (simp add: divide_le_0_iff)
    with x assms show False by simp
  qed
  have a: "1 \<le> bitlen p" using p bitlen_eq_zero_iff [of p] bitlen_nonneg [of p] by linarith
  have b: "1 \<le> bitlen q" using q bitlen_eq_zero_iff [of q] bitlen_nonneg [of q] by linarith
  have "(2::int) ^ nat (bitlen p - 1) \<le> p" using bitlen_bounds [OF p] by simp
  then have "(of_int ((2::int) ^ nat (bitlen p - 1)) :: rat) \<le> of_int p" by (simp only: of_int_le_iff)
  then have pa: "(2::rat) ^ nat (bitlen p - 1) \<le> of_int p" by simp
  have "q < 2 ^ nat (bitlen q)" using bitlen_bounds [OF q] by simp
  then have "(of_int q :: rat) < of_int ((2::int) ^ nat (bitlen q))" by (simp only: of_int_less_iff)
  then have qb: "(of_int q :: rat) \<le> 2 ^ nat (bitlen q)" by simp
  have "(2::rat) powi (bitlen p - bitlen q - 1) = 2 powi (bitlen p - 1) / 2 powi bitlen q"
    using power_int_diff [of "2::rat" "bitlen p - 1" "bitlen q"] by (simp add: algebra_simps)
  also have "\<dots> = 2 ^ nat (bitlen p - 1) / 2 ^ nat (bitlen q)"
    using a b by (simp add: power_int_def)
  also have "\<dots> \<le> of_int p / of_int q"
    using pa qb q p by (intro frac_le) simp_all
  finally have low: "(2::rat) powi (bitlen p - bitlen q - 1) \<le> \<bar>x\<bar>" using x by simp
  show ?thesis using low by (simp add: ilog2_def pq Let_def)
qed

lemma ilog2_gt: "\<bar>x\<bar> < 2 powi (ilog2 x + 1)"
proof -
  obtain p q where pq: "quotient_of \<bar>x\<bar> = (p, q)" by (cases "quotient_of \<bar>x\<bar>")
  have q: "0 < q" using quotient_of_denom_pos [OF pq] .
  have x: "\<bar>x\<bar> = of_int p / of_int q" using quotient_of_div [OF pq] .
  have b: "1 \<le> bitlen q" using q bitlen_eq_zero_iff [of q] bitlen_nonneg [of q] by linarith
  have a: "0 \<le> bitlen p" by (rule bitlen_nonneg)
  have "p < 2 ^ nat (bitlen p)"
  proof (cases "0 < p")
    case True
    then show ?thesis using bitlen_bounds [of p] by simp
  next
    case False
    have "(0::int) < 2 ^ nat (bitlen p)" by simp
    with False show ?thesis by linarith
  qed
  then have "(of_int p :: rat) < of_int ((2::int) ^ nat (bitlen p))" by (simp only: of_int_less_iff)
  then have pa: "(of_int p :: rat) < 2 ^ nat (bitlen p)" by simp
  have "(2::int) ^ nat (bitlen q - 1) \<le> q" using bitlen_bounds [OF q] by simp
  then have "(of_int ((2::int) ^ nat (bitlen q - 1)) :: rat) \<le> of_int q"
    by (simp only: of_int_le_iff)
  then have qb: "(2::rat) ^ nat (bitlen q - 1) \<le> of_int q" by simp
  have "of_int p * (2::rat) ^ nat (bitlen q - 1) \<le> of_int p * of_int q" if "0 \<le> p"
    using that qb by (intro mult_left_mono) simp_all
  moreover have "of_int p * of_int q < (2::rat) ^ nat (bitlen p) * of_int q"
    using pa q by (intro mult_strict_right_mono) simp_all
  ultimately have "of_int p * (2::rat) ^ nat (bitlen q - 1) < 2 ^ nat (bitlen p) * of_int q"
    if "0 \<le> p" using that by simp
  moreover have "of_int p * (2::rat) ^ nat (bitlen q - 1) < 2 ^ nat (bitlen p) * of_int q"
    if "p < 0"
  proof -
    have "of_int p * (2::rat) ^ nat (bitlen q - 1) < 0" using that by (simp add: mult_less_0_iff)
    moreover have "(0::rat) < 2 ^ nat (bitlen p) * of_int q" using q by simp
    ultimately show ?thesis by linarith
  qed
  ultimately have "of_int p * (2::rat) ^ nat (bitlen q - 1) < 2 ^ nat (bitlen p) * of_int q"
    by linarith
  then have "of_int p / of_int q < (2::rat) ^ nat (bitlen p) / 2 ^ nat (bitlen q - 1)"
    using q by (simp add: field_simps)
  also have "\<dots> = 2 powi bitlen p / 2 powi (bitlen q - 1)"
    using a b by (simp add: power_int_def)
  also have "\<dots> = 2 powi (bitlen p - (bitlen q - 1))"
    using power_int_diff [of "2::rat" "bitlen p" "bitlen q - 1"] by simp
  finally have up: "\<bar>x\<bar> < 2 powi (bitlen p - bitlen q + 1)" using x by (simp add: algebra_simps)
  show ?thesis
  proof (cases "2 powi (bitlen p - bitlen q) \<le> \<bar>x\<bar>")
    case True
    then show ?thesis using up by (simp add: ilog2_def pq Let_def)
  next
    case False
    then show ?thesis by (simp add: ilog2_def pq Let_def)
  qed
qed

lemma ulp_pos: "0 < ulp x"
  by (simp add: ulp_def)

lemma ulp_le:
  assumes "\<bar>x\<bar> < 2 ^ n"
  shows "ulp x \<le> 2 powi (int n - 53)"
proof (cases "x = 0")
  case True
  have "ilog2 0 = - 2" by code_simp
  then have "ulp x = 2 powi (- 54)" using True by (simp add: ulp_def)
  also have "\<dots> \<le> 2 powi (int n - 53)" by (rule power_int_increasing) simp_all
  finally show ?thesis .
next
  case False
  have "(2::rat) powi ilog2 x < 2 powi int n" using ilog2_le [OF False] assms by simp
  then have "ilog2 x < int n" by (rule power_int_le_imp_less_exp [rotated]) simp_all
  then have "max (ilog2 x) (- 1022) - 52 \<le> int n - 53" by simp
  then show ?thesis unfolding ulp_def by (rule power_int_increasing) simp
qed

lemma toDouble_error: "\<bar>toDouble x - x\<bar> \<le> ulp x / 2"
proof -
  have "toDouble x - x = ulp x * (of_int (roundTiesToEven (x / ulp x)) - x / ulp x)"
    using ulp_pos [of x] by (simp add: toDouble_def algebra_simps)
  then have "\<bar>toDouble x - x\<bar> = ulp x * \<bar>of_int (roundTiesToEven (x / ulp x)) - x / ulp x\<bar>"
    using ulp_pos [of x] by (simp add: abs_mult)
  also have "\<dots> \<le> ulp x * (1 / 2)"
    using roundTiesToEven_error [of "x / ulp x"] ulp_pos [of x]
    by (intro mult_left_mono) simp_all
  finally show ?thesis by simp
qed

lemma toDouble_nonpos: "x \<le> 0 \<Longrightarrow> toDouble x \<le> 0"
  using ulp_pos [of x] roundTiesToEven_nonpos [of "x / ulp x"]
  by (simp add: toDouble_def mult_le_0_iff divide_le_0_iff)

lemma toDouble_tenth: "toDouble (1 / 10) = 3602879701896397 / 36028797018963968"
  by code_simp

lemma jsRem_range: "\<bar>jsRem y 300\<bar> < 300"
  using jsRem_neg [of y] jsRem_nonneg [of y] flooredMod_range [of y]
  by (cases "y < 0") auto

lemma delay_error: "\<bar>delay y - jsRem y 300 * (1 / 10)\<bar> < 1 / 2 ^ 47"
proof -
  define r where "r = jsRem y 300"
  define r' where "r' = toDouble r"
  define c :: rat where "c = 3602879701896397 / 36028797018963968"
  define p where "p = r' * c"
  have r: "\<bar>r\<bar> < 300" unfolding r_def by (rule jsRem_range)
  then have "\<bar>r\<bar> < 2 ^ 9" by simp
  from ulp_le [OF this] have "ulp r \<le> 1 / 2 ^ 44" by simp
  with toDouble_error [of r] have e1: "\<bar>r' - r\<bar> \<le> 1 / 2 ^ 45" unfolding r'_def by simp
  moreover have "1 / 2 ^ 45 \<le> (1::rat)" by simp
  ultimately have r': "\<bar>r'\<bar> < 301" using r by linarith
  have "\<bar>p\<bar> = \<bar>r'\<bar> * c" unfolding p_def c_def by (simp add: abs_mult)
  also have "\<dots> < 301 * c" using r' unfolding c_def by simp
  also have "\<dots> < 2 ^ 5" unfolding c_def by simp
  finally have "\<bar>p\<bar> < 2 ^ 5" .
  from ulp_le [OF this] have "ulp p \<le> 1 / 2 ^ 48" by simp
  with toDouble_error [of p] have e2: "\<bar>toDouble p - p\<bar> \<le> 1 / 2 ^ 49" by simp
  have "p - r * (1 / 10) = r' * (c - 1 / 10) + (r' - r) * (1 / 10)"
    unfolding p_def by (simp add: field_simps)
  moreover have "\<bar>r' * (c - 1 / 10)\<bar> \<le> 301 * (1 / 180143985094819840)"
  proof -
    have "c - 1 / 10 = 1 / 180143985094819840" unfolding c_def by simp
    then have "\<bar>r' * (c - 1 / 10)\<bar> = \<bar>r'\<bar> * (1 / 180143985094819840)" by (simp add: abs_mult)
    then show ?thesis using r' by simp
  qed
  moreover have "\<bar>(r' - r) * (1 / 10)\<bar> \<le> 1 / 2 ^ 45 * (1 / 10)"
    using e1 by (simp add: abs_mult)
  ultimately have e3: "\<bar>p - r * (1 / 10)\<bar> \<le> 301 * (1 / 180143985094819840) + 1 / 2 ^ 45 * (1 / 10)"
    by linarith
  have "\<bar>toDouble p - r * (1 / 10)\<bar> \<le> \<bar>toDouble p - p\<bar> + \<bar>p - r * (1 / 10)\<bar>"
    by linarith
  also have "\<dots> \<le> 1 / 2 ^ 49 + (301 * (1 / 180143985094819840) + 1 / 2 ^ 45 * (1 / 10))"
    using e2 e3 by linarith
  also have "\<dots> < 1 / 2 ^ 47" by simp
  finally have "\<bar>toDouble p - r * (1 / 10)\<bar> < 1 / 2 ^ 47" .
  moreover have "delay y = toDouble p"
    by (simp add: delay_def multiply_def remainder_def p_def r'_def r_def c_def toDouble_tenth)
  ultimately show ?thesis unfolding r_def by simp
qed

lemma delay_nonneg_offset:
  "0 \<le> y \<Longrightarrow> delay y = multiply (toDouble (flooredMod y 300)) (toDouble (1 / 10))"
  by (simp add: delay_def remainder_def jsRem_nonneg)

lemma delay_neg_offset:
  assumes "y < 0"
  shows "delay y \<le> 0"
proof -
  have "jsRem y 300 \<le> 0" using jsRem_neg [OF assms] by simp
  then have "toDouble (jsRem y 300) \<le> 0" by (rule toDouble_nonpos)
  then have "toDouble (jsRem y 300) * toDouble (1 / 10) \<le> 0"
    by (simp add: toDouble_tenth mult_le_0_iff)
  then show ?thesis unfolding delay_def multiply_def remainder_def by (rule toDouble_nonpos)
qed

lemma delay_350: "delay 350 = 5"
  by code_simp

lemma delay_1000: "delay 1000 = 10"
  by code_simp

lemma delay_minus_50: "delay (- 50) = - 5"
  by code_simp

text \<open>The offset 3: \<^verbatim>\<open>3 * 0.1\<close> is 0.30000000000000004, not three tenths.\<close>

lemma delay_3: "delay 3 = 1351079888211149 / 4503599627370496"
  by code_simp

text \<open>
  Further offsets, with the values that binary64 arithmetic gives: 0.7000000000000001,
  0.05, 10.025, 29.950000000000003, -0.05 and 5.075 (each the number nearest to the
  decimal shown).
\<close>

lemma delay_examples:
  "delay 7 = 6305039478318695 / 9007199254740992"
  "delay (1 / 2) = 3602879701896397 / 72057594037927936"
  "delay (401 / 4) = 5643573283048653 / 562949953421312"
  "delay (599 / 2) = 2107543888121037 / 70368744177664"
  "delay (- (1 / 2)) = - (3602879701896397 / 72057594037927936)"
  "delay (2603 / 4) = 5713942027226317 / 1125899906842624"
  by code_simp+

section \<open>Registration\<close>

lemma observeEach_registered:
  "registered a \<Longrightarrow> \<exists>a1. observeEach es a = Inr a1 \<and> registered a1"
proof (induction es arbitrary: a)
  case Nil
  then show ?case by simp
next
  case (Cons e es)
  show ?case
  proof (cases "e \<in> set (animatedElements a)")
    case True
    with Cons show ?thesis by simp
  next
    case False
    from Cons.prems obtain ob where ob: "observer a = Some ob"
      "targets ob = animatedElements a" "distinct (targets ob)"
      by (auto simp: registered_def split: option.splits)
    let ?a = "a\<lparr>observer := Some (ob\<lparr>targets := targets ob @ [e]\<rparr>),
                 animatedElements := animatedElements a @ [e]\<rparr>"
    from ob False have "registered ?a" by (simp add: registered_def)
    from Cons.IH [OF this] ob False show ?thesis by simp
  qed
qed

lemma sweep_animatorOK: "animatorOK w \<Longrightarrow> animatorOK (sweep w)"
proof (cases "scrollAnimator w")
  case None
  then show ?thesis by (simp add: sweep_def animatorOK_def)
next
  case (Some a)
  assume "animatorOK w"
  with Some have "registered a" by (simp add: animatorOK_def)
  from observeEach_registered [OF this, of "querySelectorAll animationClasses w"]
  show ?thesis using Some by (auto simp: sweep_def animatorOK_def observeElements_def)
qed

text \<open>Every other operation leaves the animator alone.\<close>

lemma animator_addClass [simp]: "scrollAnimator (addClass e c w) = scrollAnimator w"
  by (simp add: addClass_def)
lemma animator_removeClass [simp]: "scrollAnimator (removeClass e cs w) = scrollAnimator w"
  by (simp add: removeClass_def)
lemma animator_toggleClass [simp]: "scrollAnimator (toggleClass e c w) = scrollAnimator w"
  by (simp add: toggleClass_def)
lemma animator_setTimeout [simp]: "scrollAnimator (setTimeout cb d w) = scrollAnimator w"
  by (simp add: setTimeout_def)
lemma animator_clearFieldError [simp]: "scrollAnimator (clearFieldError f w) = scrollAnimator w"
  by (simp add: clearFieldError_def split: option.splits)
lemma animator_showFieldError [simp]: "scrollAnimator (showFieldError f m w) = scrollAnimator w"
  by (simp add: showFieldError_def Let_def split: option.splits)
lemma animator_validateField [simp]:
  "scrollAnimator (snd (validateField f w)) = scrollAnimator w"
  by (simp add: validateField_def Let_def)
lemma animator_validateAll [simp]:
  "scrollAnimator (snd (validateAll fs w)) = scrollAnimator w"
proof (induction fs arbitrary: w)
  case Nil
  show ?case by simp
next
  case (Cons f fs)
  have "scrollAnimator (snd (validateAll fs (snd (validateField f w))))
        = scrollAnimator (snd (validateField f w))"
    by (rule Cons.IH)
  then show ?case by (simp add: split_def Let_def)
qed
lemma animator_showNotification [simp]:
  "scrollAnimator (showNotification m t w) = scrollAnimator w"
  by (simp add: showNotification_def Let_def)
lemma animator_handleFormSubmission [simp]:
  "scrollAnimator (orElse (handleFormSubmission fm w) w) = scrollAnimator w"
  by (simp add: handleFormSubmission_def orElse_def Let_def split_def split: option.splits)
lemma animator_fold:
  "(\<And>x v. scrollAnimator (f x v) = scrollAnimator v) \<Longrightarrow>
   scrollAnimator (fold f xs w) = scrollAnimator w"
  by (induction xs arbitrary: w) simp_all
lemma animator_submitResumeCb [simp]:
  "scrollAnimator (submitResumeCb fm b t w) = scrollAnimator w"
  by (simp add: submitResumeCb_def Let_def resetForm_def animator_fold)
lemma animator_observerCallback [simp]:
  "scrollAnimator (observerCallback ens w) = scrollAnimator w"
  by (induction ens arbitrary: w) (simp_all add: handleIntersect_def)
lemma animator_runCallback [simp]: "scrollAnimator (runCallback cb w) = scrollAnimator w"
  by (cases cb)
    (simp_all add: runCallback_def revealCb_def settleCb_def heroCb_def loadingDoneCb_def
      notifyInCb_def notifyOutCb_def notifyRemoveCb_def modalInCb_def modalRemoveCb_def Let_def)
lemma animator_smoothScroll [simp]: "scrollAnimator (smoothScroll l b w) = scrollAnimator w"
  by (simp add: smoothScroll_def Let_def split: option.splits)
lemma animator_animateOnLoad [simp]: "scrollAnimator (animateOnLoad w) = scrollAnimator w"
  by (simp add: animateOnLoad_def Let_def whenFound_def split: option.splits)
lemma animator_menu [simp]:
  "scrollAnimator (menuToggle t m w) = scrollAnimator w"
  "scrollAnimator (menuClose t m w) = scrollAnimator w"
  by (simp_all add: menuToggle_def menuClose_def Let_def)
lemma animator_updateActiveNavLink [simp]:
  "scrollAnimator (updateActiveNavLink c w) = scrollAnimator w"
  by (simp add: updateActiveNavLink_def animator_fold highlight_def Let_def)
lemma animator_projectLinkClick [simp]:
  "scrollAnimator (orElse (projectLinkClick h c w) w) = scrollAnimator w"
  by (simp add: projectLinkClick_def orElse_def showProjectModal_def
      split: option.splits property.splits)
lemma animator_closeProjectModal [simp]:
  "scrollAnimator (closeProjectModal i w) = scrollAnimator w"
  by (simp add: closeProjectModal_def)

lemma react_sweep_or_same:
  "react ev l w = sweep w \<or> scrollAnimator (react ev l w) = scrollAnimator w"
  by (cases l; cases ev) (simp_all add: react_def split: option.splits)

lemma react_animatorOK: "animatorOK w \<Longrightarrow> animatorOK (react ev l w)"
  using react_sweep_or_same [of ev l w] sweep_animatorOK [of w]
  by (auto simp: animatorOK_def)

lemma dispatch_animatorOK: "animatorOK w \<Longrightarrow> animatorOK (fold (react ev) ls w)"
  by (induction ls arbitrary: w) (simp_all add: react_animatorOK)

lemma animator_addListener [simp]: "scrollAnimator (addListener l w) = scrollAnimator w"
  by (simp add: addListener_def)

lemma sameDocument_addListener:
  "l \<noteq> ProjectModals \<Longrightarrow> l \<noteq> AnimatorLoad \<Longrightarrow> sameDocument w (addListener l w)"
  by (simp add: sameDocument_def addListener_def)

lemma sameDocument_refl: "sameDocument w w"
  by (simp add: sameDocument_def)

lemma sameDocument_trans: "sameDocument w w1 \<Longrightarrow> sameDocument w1 w2 \<Longrightarrow> sameDocument w w2"
  by (simp add: sameDocument_def)

lemma initializeMobileMenu_same:
  "\<exists>w1. initializeMobileMenu w = Inr w1 \<and> sameDocument w w1"
  by (simp add: initializeMobileMenu_def sameDocument_addListener sameDocument_refl
      split: option.splits)

lemma initializeSmoothScrolling_same:
  "\<exists>w1. initializeSmoothScrolling w = Inr w1 \<and> sameDocument w w1"
  by (simp add: initializeSmoothScrolling_def sameDocument_addListener)

lemma initializeFormHandler_same:
  "\<exists>w1. initializeFormHandler w = Inr w1 \<and> sameDocument w w1"
  by (simp add: initializeFormHandler_def sameDocument_addListener sameDocument_refl
      split: option.splits)

lemma initializeScrollEffects_same:
  "\<exists>w1. initializeScrollEffects w = Inr w1 \<and> sameDocument w w1"
  by (simp add: initializeScrollEffects_def sameDocument_addListener)

lemma initializeThemeManager_throws: "initializeThemeManager w = Inl TypeError"
  by (simp add: initializeThemeManager_def toggleTheme_def createThemeToggle_def)

lemma init_same: "\<exists>w4. init w = (w4, Some TypeError) \<and> sameDocument w w4"
proof -
  obtain w1 where 1: "initializeMobileMenu w = Inr w1" "sameDocument w w1"
    using initializeMobileMenu_same by blast
  obtain w2 where 2: "initializeSmoothScrolling w1 = Inr w2" "sameDocument w1 w2"
    using initializeSmoothScrolling_same by blast
  obtain w3 where 3: "initializeFormHandler w2 = Inr w3" "sameDocument w2 w3"
    using initializeFormHandler_same by blast
  obtain w4 where 4: "initializeScrollEffects w3 = Inr w4" "sameDocument w3 w4"
    using initializeScrollEffects_same by blast
  have "init w = (w4, Some TypeError)"
    by (simp add: init_def 1 2 3 4 initializeThemeManager_throws)
  moreover have "sameDocument w w4"
    using 1(2) 2(2) 3(2) 4(2) by (blast intro: sameDocument_trans)
  ultimately show ?thesis by blast
qed

lemma animator_init [simp]: "scrollAnimator (fst (init w)) = scrollAnimator w"
  using init_same [of w] by (auto simp: sameDocument_def)

lemma step_animatorOK:
  assumes "animatorOK w"
  shows "animatorOK (step ev w)"
proof -
  have d: "animatorOK (dispatch e v)" if "animatorOK v" for e v
    using that by (simp add: dispatch_def dispatch_animatorOK)
  have same: "animatorOK v" if "scrollAnimator v = scrollAnimator w" for v
    using that assms by (simp add: animatorOK_def)
  show ?thesis
  proof (cases ev)
    case StartAnimation
    show ?thesis
    proof (cases "hasIntersectionObserver w")
      case True
      with StartAnimation show ?thesis
        by (simp add: step_def newScrollAnimator_def createObserver_def animatorOK_def
            registered_def)
    next
      case False
      with StartAnimation assms show ?thesis
        by (simp add: step_def newScrollAnimator_def createObserver_def)
    qed
  next
    case StartApp
    then show ?thesis by (simp add: step_def same)
  next
    case (Intersect ens)
    then show ?thesis using assms by (simp add: step_def same split: option.splits)
  next
    case (Timeout i)
    then show ?thesis using assms by (simp add: step_def same)
  next
    case (Relayout f)
    then show ?thesis by (simp add: step_def same)
  next
    case (InsertElements es)
    then show ?thesis by (simp add: step_def same)
  next
    case (Input f v)
    have "animatorOK (w\<lparr>fvalue := (fvalue w)(f := v)\<rparr>)" by (simp add: same)
    then show ?thesis using Input by (simp add: step_def d)
  qed (simp_all add: step_def d assms)
qed

lemma observeEach_new:
  "registered a \<Longrightarrow>
   \<exists>a1 new. observeEach es a = Inr a1 \<and> animatedElements a1 = animatedElements a @ new
     \<and> set new = set es - set (animatedElements a) \<and> distinct new"
proof (induction es arbitrary: a)
  case Nil
  then show ?case by simp
next
  case (Cons e es)
  show ?case
  proof (cases "e \<in> set (animatedElements a)")
    case True
    from Cons.IH [OF Cons.prems] obtain a1 new where
      "observeEach es a = Inr a1" "animatedElements a1 = animatedElements a @ new"
      "set new = set es - set (animatedElements a)" "distinct new"
      by blast
    with True show ?thesis by auto
  next
    case False
    from Cons.prems obtain ob where ob: "observer a = Some ob"
      "targets ob = animatedElements a" "distinct (targets ob)"
      by (auto simp: registered_def split: option.splits)
    let ?a = "a\<lparr>observer := Some (ob\<lparr>targets := targets ob @ [e]\<rparr>),
                 animatedElements := animatedElements a @ [e]\<rparr>"
    from ob False have "registered ?a" by (simp add: registered_def)
    from Cons.IH [OF this] obtain a1 new where new:
      "observeEach es ?a = Inr a1" "animatedElements a1 = animatedElements ?a @ new"
      "set new = set es - set (animatedElements ?a)" "distinct new"
      by blast
    have "observeEach (e # es) a = Inr a1" using False ob new(1) by simp
    moreover have "animatedElements a1 = animatedElements a @ (e # new)" using new(2) by simp
    moreover have "set (e # new) = set (e # es) - set (animatedElements a)"
      using new(3) False by auto
    moreover have "distinct (e # new)" using new(3,4) by auto
    ultimately show ?thesis by blast
  qed
qed

lemma timers_observerCallback:
  "timers (observerCallback ens w) =
     timers w @ map (\<lambda>en. (delay (rectTop w (target en)), RevealCb (target en)))
                    (filter isIntersecting ens)"
proof (induction ens arbitrary: w)
  case Nil
  show ?case by simp
next
  case (Cons en ens)
  have "rectTop (handleIntersect e w) = rectTop w" for e
    by (simp add: handleIntersect_def setTimeout_def)
  then show ?case by (simp add: Cons.IH) (simp add: handleIntersect_def setTimeout_def)
qed

lemma classList_observerCallback: "classList (observerCallback ens w) = classList w"
  by (induction ens arbitrary: w) (simp_all add: handleIntersect_def setTimeout_def)

lemma classList_revealCb:
  "classList (revealCb e w) = (classList w)(e := tokenAdd (classList w e) ''animate-visible'')"
  by (simp add: revealCb_def Let_def addClass_def setTimeout_def)

lemma tokenAdd_idem: "tokenAdd (tokenAdd cl c) c = tokenAdd cl c"
  by (simp add: tokenAdd_def)

lemmas evalAnimator = run_def step_def page_def newScrollAnimator_def createObserver_def
  addListener_def dispatch_def react_def sweep_def observeElements_def querySelectorAll_def
  animationClasses_def hasClass_def handleIntersect_def setTimeout_def delay_350 delay_1000
  runCallback_def revealCb_def addClass_def tokenAdd_def Let_def

section \<open>The revealed class is never removed\<close>

named_theorems keep

lemma revealed_addClass [keep]: "revealed w e \<Longrightarrow> revealed (addClass x c w) e"
  by (auto simp: revealed_def hasClass_def addClass_def tokenAdd_def)

lemma revealed_removeClass [keep]:
  "''animate-visible'' \<notin> set cs \<Longrightarrow> revealed w e \<Longrightarrow> revealed (removeClass x cs w) e"
  by (auto simp: revealed_def hasClass_def removeClass_def tokenRemove_def)

lemma revealed_toggleClass [keep]:
  "c \<noteq> ''animate-visible'' \<Longrightarrow> revealed w e \<Longrightarrow> revealed (toggleClass x c w) e"
  by (auto simp: revealed_def hasClass_def toggleClass_def tokenToggle_def tokenRemove_def)

lemma revealed_setTimeout [keep]: "revealed (setTimeout cb d w) e = revealed w e"
  by (simp add: revealed_def hasClass_def setTimeout_def)

lemma revealed_clearFieldError [keep]: "revealed (clearFieldError f w) e = revealed w e"
  by (simp add: revealed_def hasClass_def clearFieldError_def split: option.splits)

lemma revealed_showFieldError [keep]: "revealed (showFieldError f m w) e = revealed w e"
  by (simp add: revealed_def hasClass_def showFieldError_def clearFieldError_def Let_def split: option.splits)

lemma revealed_validateField [keep]:
  "revealed w e \<Longrightarrow> revealed (snd (validateField f w)) e"
  by (simp add: validateField_def Let_def keep)

lemma revealed_validateAll [keep]:
  "revealed w e \<Longrightarrow> revealed (snd (validateAll fs w)) e"
proof (induction fs arbitrary: w)
  case Nil
  then show ?case by simp
next
  case (Cons f fs)
  have "revealed (snd (validateAll fs (snd (validateField f w)))) e"
    by (rule Cons.IH) (simp add: Cons.prems keep)
  then show ?case by (simp add: split_def Let_def)
qed

lemma revealed_showNotification [keep]: "revealed (showNotification m t w) e = revealed w e"
  by (simp add: revealed_def hasClass_def showNotification_def setTimeout_def Let_def)

lemma revealed_handleFormSubmission [keep]:
  "revealed w e \<Longrightarrow> revealed (orElse (handleFormSubmission fm w) w) e"
proof (cases "submitButton fm")
  case None
  assume "revealed w e"
  with None show ?thesis by (simp add: handleFormSubmission_def orElse_def)
next
  case (Some b)
  assume "revealed w e"
  then have v: "revealed (snd (validateAll (inputs fm) w)) e" by (rule revealed_validateAll)
  have "revealed (v1\<lparr>textContent := t, disabled := d\<rparr>) e = revealed v1 e" for v1 t d
    by (simp add: revealed_def hasClass_def)
  with v Some show ?thesis
    by (simp add: handleFormSubmission_def orElse_def Let_def split_def keep)
qed

lemma revealed_fold:
  "(\<And>x v. revealed v e \<Longrightarrow> revealed (f x v) e) \<Longrightarrow> revealed w e \<Longrightarrow>
   revealed (fold f xs w) e"
  by (induction xs arbitrary: w) simp_all

lemma revealed_submitResumeCb [keep]:
  "revealed w e \<Longrightarrow> revealed (submitResumeCb fm b t w) e"
proof -
  assume r: "revealed w e"
  have 1: "revealed (resetForm fm v) e = revealed v e" for v
    by (simp add: revealed_def hasClass_def resetForm_def)
  have 2: "revealed (v\<lparr>textContent := x, disabled := d\<rparr>) e = revealed v e" for v x d
    by (simp add: revealed_def hasClass_def)
  have "revealed (fold (\<lambda>i. removeClass i [''success'']) (inputs fm)
          (resetForm fm (showNotification m ty w))) e" for m ty
    by (rule revealed_fold) (simp_all add: keep 1 r)
  then show ?thesis by (simp add: submitResumeCb_def Let_def 2)
qed

lemma revealed_observerCallback [keep]:
  "revealed (observerCallback ens w) e = revealed w e"
  by (simp add: revealed_def hasClass_def classList_observerCallback)

lemma revealed_revealCb [keep]: "revealed w e \<Longrightarrow> revealed (revealCb x w) e"
  by (simp add: revealCb_def Let_def keep)

lemma revealed_runCallback [keep]:
  assumes "revealed w e"
  shows "revealed (runCallback cb w) e"
proof (cases cb)
  case (SettleCb x)
  with assms show ?thesis by (simp add: runCallback_def settleCb_def revealed_def hasClass_def)
next
  case (NotifyInCb i)
  with assms show ?thesis by (simp add: runCallback_def notifyInCb_def revealed_def hasClass_def)
next
  case (NotifyOutCb i)
  with assms show ?thesis
    by (simp add: runCallback_def notifyOutCb_def setTimeout_def revealed_def hasClass_def)
next
  case (NotifyRemoveCb i)
  with assms show ?thesis
    by (simp add: runCallback_def notifyRemoveCb_def revealed_def hasClass_def)
next
  case (ModalInCb i)
  with assms show ?thesis by (simp add: runCallback_def modalInCb_def revealed_def hasClass_def)
next
  case (ModalRemoveCb i)
  with assms show ?thesis
    by (simp add: runCallback_def modalRemoveCb_def revealed_def hasClass_def)
qed (simp_all add: runCallback_def heroCb_def loadingDoneCb_def keep assms)

lemma revealed_smoothScroll [keep]:
  "revealed w e \<Longrightarrow> revealed (smoothScroll l b w) e"
  by (simp add: smoothScroll_def Let_def keep split: option.splits)

lemma revealed_whenFound:
  "revealed (whenFound x (\<lambda>e. setTimeout (cb e) d) w) e = revealed w e"
  by (simp add: whenFound_def keep split: option.splits)

lemma revealed_animateOnLoad [keep]: "revealed (animateOnLoad w) e = revealed w e"
  by (simp add: animateOnLoad_def Let_def revealed_whenFound)

lemma revealed_bodyOverflow: "revealed (w\<lparr>bodyOverflow := x\<rparr>) e = revealed w e"
  by (simp add: revealed_def hasClass_def)

lemma revealed_menuToggle [keep]: "revealed w e \<Longrightarrow> revealed (menuToggle t m w) e"
  by (simp add: menuToggle_def Let_def keep revealed_bodyOverflow)

lemma revealed_menuClose [keep]: "revealed w e \<Longrightarrow> revealed (menuClose t m w) e"
  by (simp add: menuClose_def keep revealed_bodyOverflow)

lemma revealed_highlight: "revealed w e \<Longrightarrow> revealed (highlight c l w) e"
  by (simp add: highlight_def Let_def keep)

lemma revealed_updateActiveNavLink [keep]:
  "revealed w e \<Longrightarrow> revealed (updateActiveNavLink c w) e"
  unfolding updateActiveNavLink_def by (rule revealed_fold) (simp_all add: revealed_highlight)

lemma revealed_projectLinkClick [keep]:
  "revealed (orElse (projectLinkClick h c w) w) e = revealed w e"
  by (simp add: projectLinkClick_def orElse_def showProjectModal_def setTimeout_def
      revealed_def hasClass_def split: option.splits property.splits)

lemma revealed_closeProjectModal [keep]:
  "revealed (closeProjectModal i w) e = revealed w e"
  by (simp add: closeProjectModal_def setTimeout_def revealed_def hasClass_def)

lemma revealed_sweep [keep]: "revealed (sweep w) e = revealed w e"
  by (simp add: sweep_def revealed_def hasClass_def split: option.splits sum.splits)

lemma revealed_react: "revealed w e \<Longrightarrow> revealed (react ev l w) e"
  by (cases l; cases ev) (simp_all add: react_def keep split: option.splits)

lemma revealed_dispatch: "revealed w e \<Longrightarrow> revealed (dispatch ev w) e"
  unfolding dispatch_def by (rule revealed_fold) (simp_all add: revealed_react)

lemma revealed_init: "revealed (fst (init w)) e = revealed w e"
  using init_same [of w] by (auto simp: sameDocument_def revealed_def hasClass_def)

lemma revealed_step:
  assumes "revealed w e"
  shows "revealed (step ev w) e"
proof (cases ev)
  case StartAnimation
  with assms show ?thesis
    by (simp add: step_def newScrollAnimator_def createObserver_def addListener_def
        revealed_def hasClass_def)
next
  case StartApp
  with assms show ?thesis by (simp add: step_def revealed_init)
next
  case (Intersect ens)
  with assms show ?thesis by (simp add: step_def keep split: option.splits)
next
  case (Timeout i)
  have "revealed (w\<lparr>timers := t\<rparr>) e" for t
    using assms by (simp add: revealed_def hasClass_def)
  with Timeout assms show ?thesis by (simp add: step_def keep)
next
  case (Relayout f)
  with assms show ?thesis by (simp add: step_def revealed_def hasClass_def)
next
  case (InsertElements es)
  with assms show ?thesis by (simp add: step_def revealed_def hasClass_def)
next
  case (Input f v)
  have "revealed (w\<lparr>fvalue := (fvalue w)(f := v)\<rparr>) e"
    using assms by (simp add: revealed_def hasClass_def)
  with Input show ?thesis by (simp add: step_def revealed_dispatch)
qed (simp_all add: step_def revealed_dispatch assms)

lemma revealed_run: "revealed w e \<Longrightarrow> revealed (run evs w) e"
  unfolding run_def by (rule revealed_fold) (simp_all add: revealed_step)

section \<open>The matcher decides the language of the pattern\<close>

lemma nullable_matches: "nullable r = ([] \<in> matches r)"
  by (induction r) (auto intro: repeat.none)

lemma repeat_head:
  assumes "x \<in> repeat A" and "x = c # s"
  shows "\<exists>u v. s = u @ v \<and> c # u \<in> A \<and> v \<in> repeat A"
  using assms
proof (induction arbitrary: s rule: repeat.induct)
  case none
  then show ?case by simp
next
  case (more u v)
  show ?case
  proof (cases u)
    case Nil
    with more show ?thesis by simp
  next
    case (Cons d u1)
    with more.prems have "d = c" "s = u1 @ v" by simp_all
    with more.hyps Cons show ?thesis by blast
  qed
qed

lemma repeat_cons:
  "(c # s \<in> repeat A) = (\<exists>u v. s = u @ v \<and> c # u \<in> A \<and> v \<in> repeat A)"
proof
  assume "c # s \<in> repeat A"
  then show "\<exists>u v. s = u @ v \<and> c # u \<in> A \<and> v \<in> repeat A"
    using repeat_head by blast
next
  assume "\<exists>u v. s = u @ v \<and> c # u \<in> A \<and> v \<in> repeat A"
  then obtain u v where "s = u @ v" "c # u \<in> A" "v \<in> repeat A" by blast
  then show "c # s \<in> repeat A" using repeat.more [of "c # u" A v] by simp
qed

lemma matches_deriv: "(s \<in> matches (deriv c r)) = (c # s \<in> matches r)"
proof (induction r arbitrary: s)
  case (Seq r1 r2)
  have "(c # s \<in> matches (Seq r1 r2))
        = (([] \<in> matches r1 \<and> c # s \<in> matches r2)
           \<or> (\<exists>u v. s = u @ v \<and> c # u \<in> matches r1 \<and> v \<in> matches r2))"
    by (auto simp: Cons_eq_append_conv)
  with Seq show ?case by (auto simp: nullable_matches)
next
  case (Star r)
  then show ?case by (auto simp: repeat_cons)
qed auto

lemma test_matches: "test r s = (s \<in> matches r)"
  by (induction s arbitrary: r) (simp_all add: nullable_matches matches_deriv)

lemma repeat_chars: "repeat {[c] | c. p c} = {s. list_all p s}"
proof (rule set_eqI)
  fix s
  show "(s \<in> repeat {[c] | c. p c}) = (s \<in> {s. list_all p s})"
  proof (induction s)
    case Nil
    show ?case by (simp add: repeat.none)
  next
    case (Cons c s)
    then show ?case by (auto simp: repeat_cons)
  qed
qed

lemma matches_Plus_Chars: "matches (Plus (Chars p)) = {s. s \<noteq> [] \<and> list_all p s}"
proof (rule set_eqI)
  fix s
  show "(s \<in> matches (Plus (Chars p))) = (s \<in> {s. s \<noteq> [] \<and> list_all p s})"
  proof (cases s)
    case Nil
    then show ?thesis by (simp add: Plus_def)
  next
    case (Cons c t)
    have "(c # t \<in> matches (Plus (Chars p))) = (p c \<and> list_all p t)"
    proof
      assume "c # t \<in> matches (Plus (Chars p))"
      then show "p c \<and> list_all p t" by (auto simp: Plus_def repeat_chars)
    next
      assume "p c \<and> list_all p t"
      then have "[c] \<in> matches (Chars p)" "t \<in> matches (Star (Chars p))"
        by (simp_all add: repeat_chars)
      then have "[c] @ t \<in> matches (Seq (Chars p) (Star (Chars p)))"
        unfolding matches.simps(5) by blast
      then show "c # t \<in> matches (Plus (Chars p))" by (simp add: Plus_def)
    qed
    with Cons show ?thesis by simp
  qed
qed

lemma test_emailRegex:
  "test emailRegex s =
     (\<exists>a b c. s = a @ [64] @ b @ [46] @ c \<and> a \<noteq> [] \<and> b \<noteq> [] \<and> c \<noteq> []
        \<and> list_all notSpaceAt a \<and> list_all notSpaceAt b \<and> list_all notSpaceAt c)"
proof -
  have "matches emailRegex =
      {a @ [64] @ b @ [46] @ c | a b c. a \<noteq> [] \<and> b \<noteq> [] \<and> c \<noteq> []
         \<and> list_all notSpaceAt a \<and> list_all notSpaceAt b \<and> list_all notSpaceAt c}"
    unfolding emailRegex_def matches.simps(5) matches_Plus_Chars
    by auto blast
  then show ?thesis by (auto simp: test_matches)
qed

section \<open>Field validation\<close>

lemma test_email_empty: "\<not> test emailRegex []"
  by (simp add: emailRegex_def Plus_def)

lemma validateField_fst:
  "fst (validateField f w) =
     (\<not> (ftype w f = ''email'' \<and> \<not> test emailRegex (trim (fvalue w f)))
      \<and> \<not> (required w f \<and> trim (fvalue w f) = []))"
  by (simp add: validateField_def Let_def)

lemma validateField_onlyMarks: "onlyMarks w (snd (validateField f w))"
  by (simp add: validateField_def Let_def onlyMarks_def showFieldError_def clearFieldError_def
      addClass_def removeClass_def split: option.splits)

lemma onlyMarks_trans: "onlyMarks w w1 \<Longrightarrow> onlyMarks w1 w2 \<Longrightarrow> onlyMarks w w2"
  by (simp add: onlyMarks_def)

lemma onlyMarks_valid:
  "onlyMarks w w1 \<Longrightarrow> fst (validateField f w1) = fst (validateField f w)"
  by (simp add: validateField_fst onlyMarks_def)

lemma validateAll_result:
  "onlyMarks w (snd (validateAll fs w))
   \<and> fst (validateAll fs w) = list_all (\<lambda>i. fst (validateField i w)) fs"
proof (induction fs arbitrary: w)
  case Nil
  show ?case by (simp add: onlyMarks_def)
next
  case (Cons f fs)
  let ?w1 = "snd (validateField f w)"
  have 1: "onlyMarks w ?w1" by (rule validateField_onlyMarks)
  have 2: "onlyMarks ?w1 (snd (validateAll fs ?w1))"
    and 3: "fst (validateAll fs ?w1) = list_all (\<lambda>i. fst (validateField i ?w1)) fs"
    using Cons.IH [of ?w1] by simp_all
  have 4: "list_all (\<lambda>i. fst (validateField i ?w1)) fs
           = list_all (\<lambda>i. fst (validateField i w)) fs"
    by (simp add: onlyMarks_valid [OF 1])
  from onlyMarks_trans [OF 1 2] 3 4 show ?case by (simp add: split_def Let_def)
qed

lemma validateField_classList:
  "classList (snd (validateField f w)) =
     (classList w)(f := tokenAdd (tokenRemove (classList w f) [''error'', ''success''])
                          (if fst (validateField f w) then ''success'' else ''error''))"
  by (simp add: validateField_def Let_def showFieldError_def clearFieldError_def
      addClass_def removeClass_def split: option.splits)

lemma marks_after:
  "(''error'' \<in> set (tokenAdd (tokenRemove cl [''error'', ''success'']) c)) = (c = ''error'')"
  "(''success'' \<in> set (tokenAdd (tokenRemove cl [''error'', ''success'']) c)) = (c = ''success'')"
  by (auto simp: tokenAdd_def tokenRemove_def)

lemma validateField_marks:
  "hasClass (snd (validateField f w)) f ''error'' = (\<not> fst (validateField f w))"
  "hasClass (snd (validateField f w)) f ''success'' = fst (validateField f w)"
  by (simp_all add: hasClass_def validateField_classList marks_after)

lemma trim_not_an_email: "trim (js ''not-an-email'') = js ''not-an-email''"
  by (simp add: trim_def js_def isWhiteSpace_def)

lemma trim_a_b_co: "trim (js ''a@b.co'') = js ''a@b.co''"
  by (simp add: trim_def js_def isWhiteSpace_def)

lemma test_not_an_email: "\<not> test emailRegex (js ''not-an-email'')"
  by (simp add: emailRegex_def Plus_def notSpaceAt_def isWhiteSpace_def js_def)

lemma test_a_b_co: "test emailRegex (js ''a@b.co'')"
  by (simp add: emailRegex_def Plus_def notSpaceAt_def isWhiteSpace_def js_def)

lemma dropWhile_all: "list_all P xs \<Longrightarrow> dropWhile P xs = []"
  by (induction xs) simp_all

lemma trim_all_whitespace: "list_all isWhiteSpace v \<Longrightarrow> trim v = []"
  by (simp add: trim_def dropWhile_all del: dropWhile_eq_Nil_conv)

lemma trim_padding:
  assumes "list_all isWhiteSpace l" and "list_all isWhiteSpace r"
  shows "trim (l @ v @ r) = trim v"
proof -
  from assms(1) have 1: "dropWhile isWhiteSpace (l @ v @ r) = dropWhile isWhiteSpace (v @ r)"
    by (intro dropWhile_append2) (simp add: list_all_iff)
  show ?thesis
  proof (cases "list_all isWhiteSpace v")
    case True
    with assms(2) have "list_all isWhiteSpace (v @ r)" by simp
    then have "dropWhile isWhiteSpace (v @ r) = []" by (rule dropWhile_all)
    with 1 have "trim (l @ v @ r) = []" by (simp only: trim_def rev.simps dropWhile.simps)
    moreover from True have "trim v = []" by (rule trim_all_whitespace)
    ultimately show ?thesis by (simp only:)
  next
    case False
    then obtain x where "x \<in> set v" "\<not> isWhiteSpace x" by (auto simp: list_all_iff)
    then have 2: "dropWhile isWhiteSpace (v @ r) = dropWhile isWhiteSpace v @ r"
      by (rule dropWhile_append1)
    from assms(2) have 3:
      "dropWhile isWhiteSpace (rev r @ rev (dropWhile isWhiteSpace v))
       = dropWhile isWhiteSpace (rev (dropWhile isWhiteSpace v))"
      by (intro dropWhile_append2) (simp add: list_all_iff)
    show ?thesis by (simp only: trim_def 1 2 3 rev_append)
  qed
qed

lemma emailRegex_not_nullable: "\<not> nullable emailRegex"
  by (simp add: emailRegex_def Plus_def)

lemma validateField_email_error:
  "ftype w f = ''email'' \<Longrightarrow> \<not> test emailRegex (trim (fvalue w f)) \<Longrightarrow>
   validateField f w =
     (False, showFieldError f ''Please enter a valid email address''
               (addClass f ''error'' (removeClass f [''error'', ''success''] w)))"
  by (simp add: validateField_def Let_def)

lemma validateField_required_error:
  "\<not> (ftype w f = ''email'' \<and> \<not> test emailRegex (trim (fvalue w f))) \<Longrightarrow>
   required w f \<Longrightarrow> trim (fvalue w f) = [] \<Longrightarrow>
   validateField f w =
     (False, showFieldError f ''This field is required''
               (addClass f ''error'' (removeClass f [''error'', ''success''] w)))"
  by (simp add: validateField_def Let_def emailRegex_not_nullable)

lemma validateField_success:
  "\<not> (ftype w f = ''email'' \<and> \<not> test emailRegex (trim (fvalue w f))) \<Longrightarrow>
   \<not> (required w f \<and> trim (fvalue w f) = []) \<Longrightarrow>
   validateField f w =
     (True, clearFieldError f (addClass f ''success'' (removeClass f [''error'', ''success''] w)))"
  by (simp add: validateField_def Let_def)

lemma fieldErrors_clearFieldError:
  "fieldErrors (clearFieldError f v) =
     (case parentNode v f of
        None \<Rightarrow> fieldErrors v
      | Some p \<Rightarrow> (fieldErrors v)(p := drop 1 (fieldErrors v p)))"
  by (simp add: clearFieldError_def split: option.splits)

lemma parentNode_clearFieldError: "parentNode (clearFieldError f v) = parentNode v"
  by (simp add: clearFieldError_def split: option.splits)

lemma fieldErrors_showFieldError:
  "fieldErrors (showFieldError f m v) =
     (case parentNode v f of
        None \<Rightarrow> fieldErrors v
      | Some p \<Rightarrow> (fieldErrors v)(p := drop 1 (fieldErrors v p) @ [m]))"
  by (simp add: showFieldError_def Let_def fieldErrors_clearFieldError
      parentNode_clearFieldError split: option.splits)

lemma marks_frame:
  "fieldErrors (addClass f c v) = fieldErrors v" "parentNode (addClass f c v) = parentNode v"
  "fieldErrors (removeClass f cs v) = fieldErrors v"
  "parentNode (removeClass f cs v) = parentNode v"
  by (simp_all add: addClass_def removeClass_def)

lemma validateField_fieldErrors:
  "fieldErrors (snd (validateField f w)) =
     (case parentNode w f of
        None \<Rightarrow> fieldErrors w
      | Some p \<Rightarrow>
          (fieldErrors w)
            (p := drop 1 (fieldErrors w p)
                  @ (if ftype w f = ''email'' \<and> \<not> test emailRegex (trim (fvalue w f))
                     then [''Please enter a valid email address'']
                     else if required w f \<and> trim (fvalue w f) = []
                     then [''This field is required'']
                     else [])))"
proof (cases "ftype w f = ''email'' \<and> \<not> test emailRegex (trim (fvalue w f))")
  case True
  then have "validateField f w =
     (False, showFieldError f ''Please enter a valid email address''
               (addClass f ''error'' (removeClass f [''error'', ''success''] w)))"
    by (simp add: validateField_email_error)
  with True show ?thesis
    by (simp add: fieldErrors_showFieldError marks_frame split: option.splits)
next
  case a: False
  show ?thesis
  proof (cases "required w f \<and> trim (fvalue w f) = []")
    case True
    with a have "validateField f w =
       (False, showFieldError f ''This field is required''
                 (addClass f ''error'' (removeClass f [''error'', ''success''] w)))"
      by (simp add: validateField_required_error)
    with a True show ?thesis
      by (simp add: fieldErrors_showFieldError marks_frame emailRegex_not_nullable
          split: option.splits)
  next
    case False
    with a have "validateField f w =
       (True, clearFieldError f (addClass f ''success''
                (removeClass f [''error'', ''success''] w)))"
      by (simp add: validateField_success)
    with a False show ?thesis
      by (auto simp: fieldErrors_clearFieldError marks_frame split: option.splits)
  qed
qed

lemma validateField_same_trim:
  assumes "trim v = trim (fvalue w f)"
  shows "fst (validateField f (w\<lparr>fvalue := (fvalue w)(f := v)\<rparr>)) = fst (validateField f w)"
    and "classList (snd (validateField f (w\<lparr>fvalue := (fvalue w)(f := v)\<rparr>)))
         = classList (snd (validateField f w))"
    and "fieldErrors (snd (validateField f (w\<lparr>fvalue := (fvalue w)(f := v)\<rparr>)))
         = fieldErrors (snd (validateField f w))"
proof -
  show 1: "fst (validateField f (w\<lparr>fvalue := (fvalue w)(f := v)\<rparr>)) = fst (validateField f w)"
    by (simp add: validateField_fst assms)
  show "classList (snd (validateField f (w\<lparr>fvalue := (fvalue w)(f := v)\<rparr>)))
         = classList (snd (validateField f w))"
    by (simp add: validateField_classList 1)
  show "fieldErrors (snd (validateField f (w\<lparr>fvalue := (fvalue w)(f := v)\<rparr>)))
         = fieldErrors (snd (validateField f w))"
  proof (cases "parentNode w f")
    case None
    then show ?thesis by (simp add: validateField_fieldErrors)
  next
    case (Some p)
    then show ?thesis by (simp add: validateField_fieldErrors assms)
  qed
qed

section \<open>Form submission\<close>

lemma showNotification_effect:
  "notifications (showNotification msg ty w)
     = drop 1 (notifications w) @ [banner (nextId w) ty msg]"
  "timers (showNotification msg ty w)
     = timers w @ [(100, NotifyInCb (nextId w)), (5000, NotifyOutCb (nextId w))]"
  "nextId (showNotification msg ty w) = Suc (nextId w)"
  by (simp_all add: showNotification_def Let_def setTimeout_def banner_def)

lemma showNotification_frame:
  "textContent (showNotification msg ty w) = textContent w"
  "disabled (showNotification msg ty w) = disabled w"
  "fvalue (showNotification msg ty w) = fvalue w"
  "defaultValue (showNotification msg ty w) = defaultValue w"
  "classList (showNotification msg ty w) = classList w"
  by (simp_all add: showNotification_def Let_def setTimeout_def)

lemma classList_fold_removeClass:
  "classList (fold (\<lambda>i. removeClass i cs) xs w) e =
     (if e \<in> set xs then tokenRemove (classList w e) cs else classList w e)"
proof (induction xs arbitrary: w)
  case Nil
  show ?case by simp
next
  case (Cons x xs)
  have "tokenRemove (tokenRemove cl cs) cs = tokenRemove cl cs" for cl
    by (simp add: tokenRemove_def)
  then show ?case by (simp add: Cons.IH) (simp add: removeClass_def)
qed

lemma fold_removeClass_frame:
  "fvalue (fold (\<lambda>i. removeClass i cs) xs w) = fvalue w"
  "textContent (fold (\<lambda>i. removeClass i cs) xs w) = textContent w"
  "disabled (fold (\<lambda>i. removeClass i cs) xs w) = disabled w"
  "notifications (fold (\<lambda>i. removeClass i cs) xs w) = notifications w"
  "timers (fold (\<lambda>i. removeClass i cs) xs w) = timers w"
  by (induction xs arbitrary: w) (simp_all add: removeClass_def)

lemma submitResumeCb_effect:
  "textContent (submitResumeCb fm b t v) b = t"
  "\<not> disabled (submitResumeCb fm b t v) b"
  "notifications (submitResumeCb fm b t v)
     = drop 1 (notifications v)
       @ [banner (nextId v) ''success''
            ''Message sent successfully! I'll get back to you soon.'']"
  "timers (submitResumeCb fm b t v)
     = timers v @ [(100, NotifyInCb (nextId v)), (5000, NotifyOutCb (nextId v))]"
  "i \<in> set (inputs fm) \<Longrightarrow> fvalue (submitResumeCb fm b t v) i = defaultValue v i"
  "i \<in> set (inputs fm) \<Longrightarrow> \<not> hasClass (submitResumeCb fm b t v) i ''success''"
  by (simp_all add: submitResumeCb_def Let_def fold_removeClass_frame resetForm_def
      showNotification_effect showNotification_frame hasClass_def classList_fold_removeClass
      tokenRemove_def)

section \<open>Project data\<close>

lemma mapped_title:
  "map_of projectDetails (title c) = Some d \<Longrightarrow> details (getProjectData c) = Own d"
  by (simp add: getProjectData_def getProperty_def)

lemma unmapped_plain_title:
  "map_of projectDetails (title c) = None \<Longrightarrow> title c \<notin> set objectPrototype \<Longrightarrow>
   details (getProjectData c) = Own (defaultDetail (description c))"
  by (simp add: getProjectData_def getProperty_def)

lemma unmapped_inherited_title:
  "map_of projectDetails (title c) = None \<Longrightarrow> title c \<in> set objectPrototype \<Longrightarrow>
   details (getProjectData c) = Inherited (title c)
   \<and> projectLinkClick (Some ''#'') (Some c) w = Inl TypeError"
  by (simp add: getProjectData_def getProperty_def projectLinkClick_def showProjectModal_def)

lemma modal_examples:
  "map content (modals (react (ProjectLinkClick (Some ''#'') (Some shopCard)) ProjectModals page))
     = [\<lparr>ptitle = ''E-Commerce Platform'', pdescription = ''An online shop'',
         tech = [''React'', ''Node.js''], pimage = ''shop.png'',
         details = Own (snd (projectDetails ! 0))\<rparr>]"
  "map content (modals (react (ProjectLinkClick (Some []) (Some blogCard)) ProjectModals page))
     = [\<lparr>ptitle = ''Travel Blog'', pdescription = ''Notes from the road'',
         tech = [''HTML''], pimage = ''blog.png'',
         details = Own (defaultDetail ''Notes from the road'')\<rparr>]"
  by (simp_all add: shopCard_def blogCard_def projectDetails_def getProjectData_def
      getProperty_def objectPrototype_def projectLinkClick_def showProjectModal_def react_def
      orElse_def page_def setTimeout_def)

lemma init_stops_before_modals:
  "snd (init w) = Some TypeError
   \<and> (ProjectModals \<in> set (listeners (fst (init w)))) = (ProjectModals \<in> set (listeners w))
   \<and> modals (fst (init w)) = modals w"
  using init_same [of w] by (auto simp: sameDocument_def)

lemma react_other_listener:
  "l \<noteq> ProjectModals \<Longrightarrow> react (ProjectLinkClick h c) l w = w"
  by (cases l) (simp_all add: react_def)

lemma click_without_listener:
  "ProjectModals \<notin> set ls \<Longrightarrow> fold (react (ProjectLinkClick h c)) ls w = w"
  by (induction ls) (auto simp: react_other_listener)

lemma modal_never_opens:
  assumes "ProjectModals \<notin> set (listeners w)"
  shows "modals (run [StartApp, ProjectLinkClick h c] w) = modals w"
proof -
  let ?w1 = "fst (init w)"
  have "ProjectModals \<notin> set (listeners ?w1)"
    using assms init_stops_before_modals [of w] by simp
  then have "dispatch (ProjectLinkClick h c) ?w1 = ?w1"
    unfolding dispatch_def by (rule click_without_listener)
  then show ?thesis
    using init_stops_before_modals [of w] by (simp add: run_def step_def)
qed

text \<open>
  The listeners of the form are registered before the initialisation throws, so blur and
  submit events reach the validator.
\<close>

lemma keepsForm_addListener: "keepsForm w (addListener l w)"
  by (auto simp: keepsForm_def addListener_def)

lemma keepsForm_refl: "keepsForm w w"
  by (simp add: keepsForm_def)

lemma initializeMobileMenu_keepsForm:
  "\<exists>w1. initializeMobileMenu w = Inr w1 \<and> keepsForm w w1"
  by (simp add: initializeMobileMenu_def keepsForm_addListener keepsForm_refl
      split: option.splits)

lemma initializeSmoothScrolling_keepsForm:
  "\<exists>w1. initializeSmoothScrolling w = Inr w1 \<and> keepsForm w w1"
  by (simp add: initializeSmoothScrolling_def keepsForm_addListener)

lemma initializeFormHandler_binds:
  "contactForm w = Some fm \<Longrightarrow>
   \<exists>w1. initializeFormHandler w = Inr w1 \<and> FormHandler fm \<in> set (listeners w1)"
  by (simp add: initializeFormHandler_def addListener_def)

lemma initializeScrollEffects_keepsForm:
  "\<exists>w1. initializeScrollEffects w = Inr w1 \<and> keepsForm w w1"
  by (simp add: initializeScrollEffects_def keepsForm_addListener)

lemma init_binds_form:
  assumes "contactForm w = Some fm"
  shows "FormHandler fm \<in> set (listeners (fst (init w)))"
proof -
  obtain w1 where 1: "initializeMobileMenu w = Inr w1" "keepsForm w w1"
    using initializeMobileMenu_keepsForm by blast
  obtain w2 where 2: "initializeSmoothScrolling w1 = Inr w2" "keepsForm w1 w2"
    using initializeSmoothScrolling_keepsForm by blast
  from assms 1(2) 2(2) have "contactForm w2 = Some fm" by (simp add: keepsForm_def)
  then obtain w3 where 3: "initializeFormHandler w2 = Inr w3"
    "FormHandler fm \<in> set (listeners w3)"
    using initializeFormHandler_binds by blast
  obtain w4 where 4: "initializeScrollEffects w3 = Inr w4" "keepsForm w3 w4"
    using initializeScrollEffects_keepsForm by blast
  have "init w = (w4, Some TypeError)"
    by (simp add: init_def 1 2 3 4 initializeThemeManager_throws)
  moreover from 3(2) 4(2) have "FormHandler fm \<in> set (listeners w4)"
    by (auto simp: keepsForm_def)
  ultimately show ?thesis by simp
qed

lemma started_page:
  "listeners (step StartApp page) = [SmoothScrolling, FormHandler contact, ScrollEffects None]"
  by (simp add: step_def init_def initializeMobileMenu_def initializeSmoothScrolling_def
      initializeFormHandler_def initializeScrollEffects_def initializeThemeManager_def
      toggleTheme_def createThemeToggle_def addListener_def querySelector_def hasClass_def
      page_def contact_def)

section \<open>Evaluation on the concrete page\<close>

lemma trim_Ann: "trim (js ''Ann'') = js ''Ann''"
  by (simp add: trim_def js_def isWhiteSpace_def)

lemma page_fields_valid: "list_all (\<lambda>i. fst (validateField i page)) (inputs contact)"
proof -
  have "fvalue page 3 = js ''Ann''" "fvalue page 4 = js ''a@b.co''" "ftype page 3 = ''text''"
    "ftype page 4 = ''email''"
    by (simp_all add: page_def)
  moreover have "js ''Ann'' \<noteq> []" "js ''a@b.co'' \<noteq> []" by (simp_all add: js_def)
  ultimately show ?thesis
    by (simp add: contact_def validateField_fst trim_Ann trim_a_b_co test_a_b_co)
qed

lemma observer_options:
  "hasIntersectionObserver w \<Longrightarrow>
   newScrollAnimator w =
     Inr (w\<lparr>scrollAnimator :=
              Some \<lparr>observer = Some \<lparr>threshold = toDouble (1 / 10), rootMargin = ''0px'',
                                     targets = []\<rparr>,
                    animatedElements = []\<rparr>,
            listeners := listeners w @ [AnimatorEvents, AnimatorLoad]\<rparr>)"
  by (simp add: newScrollAnimator_def createObserver_def)

section \<open>A page on which the animator was never constructed\<close>

lemma calm_refl: "calm w w"
  by (simp add: calm_def)

lemma calm_trans:
  assumes "calm w w1" and "calm w1 w2"
  shows "calm w w2"
proof -
  from assms(1) obtain t1 where t1: "timers w1 = timers w @ t1"
    "list_all (\<lambda>t. plainCallback (snd t)) t1"
    unfolding calm_def by (metis append_take_drop_id)
  from assms(2) obtain t2 where t2: "timers w2 = timers w1 @ t2"
    "list_all (\<lambda>t. plainCallback (snd t)) t2"
    unfolding calm_def by (metis append_take_drop_id)
  from t1 t2 have "timers w2 = timers w @ (t1 @ t2)" by simp
  with t1(2) t2(2) assms show ?thesis by (simp add: calm_def)
qed

lemma calm_plainTimers: "calm w w1 \<Longrightarrow> plainTimers w \<Longrightarrow> plainTimers w1"
proof -
  assume c: "calm w w1" and p: "plainTimers w"
  from c obtain t1 where "timers w1 = timers w @ t1" "list_all (\<lambda>t. plainCallback (snd t)) t1"
    unfolding calm_def by (metis append_take_drop_id)
  with p show ?thesis by (simp add: plainTimers_def)
qed

lemma revealed_classList:
  "(\<And>e. (''animate-visible'' \<in> set (classList w1 e)) = (''animate-visible'' \<in> set (classList w e)))
   \<Longrightarrow> revealed w1 = revealed w"
  by (simp add: revealed_def hasClass_def fun_eq_iff)

named_theorems calms

lemma calm_addClass [calms]:
  "c \<noteq> ''animate-visible'' \<Longrightarrow> calm w v \<Longrightarrow> calm w (addClass x c v)"
proof -
  assume "c \<noteq> ''animate-visible''"
  then have "calm v (addClass x c v)"
    by (simp add: calm_def revealed_def hasClass_def fun_eq_iff addClass_def tokenAdd_def)
  moreover assume "calm w v"
  ultimately show ?thesis by (rule calm_trans [rotated])
qed

lemma calm_removeClass [calms]:
  "''animate-visible'' \<notin> set cs \<Longrightarrow> calm w v \<Longrightarrow> calm w (removeClass x cs v)"
proof -
  assume "''animate-visible'' \<notin> set cs"
  then have "calm v (removeClass x cs v)"
    by (auto simp: calm_def revealed_def hasClass_def fun_eq_iff removeClass_def
        tokenRemove_def)
  moreover assume "calm w v"
  ultimately show ?thesis by (rule calm_trans [rotated])
qed

lemma calm_toggleClass [calms]:
  "c \<noteq> ''animate-visible'' \<Longrightarrow> calm w v \<Longrightarrow> calm w (toggleClass x c v)"
proof -
  assume "c \<noteq> ''animate-visible''"
  then have "calm v (toggleClass x c v)"
    by (auto simp: calm_def revealed_def hasClass_def fun_eq_iff toggleClass_def
        tokenToggle_def tokenRemove_def)
  moreover assume "calm w v"
  ultimately show ?thesis by (rule calm_trans [rotated])
qed

lemma calm_setTimeout [calms]:
  "plainCallback cb \<Longrightarrow> calm w v \<Longrightarrow> calm w (setTimeout cb d v)"
proof -
  assume "plainCallback cb"
  then have "calm v (setTimeout cb d v)"
    by (simp add: calm_def revealed_def hasClass_def fun_eq_iff setTimeout_def)
  moreover assume "calm w v"
  ultimately show ?thesis by (rule calm_trans [rotated])
qed

text \<open>Writes to fields that the relation does not read.\<close>

lemma calm_other [calms]:
  "calm w v \<Longrightarrow> calm w (v\<lparr>fieldErrors := fe\<rparr>)"
  "calm w v \<Longrightarrow> calm w (v\<lparr>notifications := ns\<rparr>)"
  "calm w v \<Longrightarrow> calm w (v\<lparr>nextId := n\<rparr>)"
  "calm w v \<Longrightarrow> calm w (v\<lparr>fvalue := fv\<rparr>)"
  "calm w v \<Longrightarrow> calm w (v\<lparr>textContent := tc\<rparr>)"
  "calm w v \<Longrightarrow> calm w (v\<lparr>disabled := di\<rparr>)"
  "calm w v \<Longrightarrow> calm w (v\<lparr>bodyOverflow := bo\<rparr>)"
  "calm w v \<Longrightarrow> calm w (v\<lparr>modals := ms\<rparr>)"
  "calm w v \<Longrightarrow> calm w (v\<lparr>styleTransform := st\<rparr>)"
  "calm w v \<Longrightarrow> calm w (v\<lparr>rectTop := rt\<rparr>)"
  "calm w v \<Longrightarrow> calm w (v\<lparr>elements := es\<rparr>)"
  by (simp_all add: calm_def revealed_def hasClass_def fun_eq_iff)

lemma calm_clearFieldError [calms]: "calm w v \<Longrightarrow> calm w (clearFieldError f v)"
  by (cases "parentNode v f") (simp_all add: clearFieldError_def calms)

lemma calm_showFieldError [calms]: "calm w v \<Longrightarrow> calm w (showFieldError f m v)"
  by (cases "parentNode (clearFieldError f v) f")
    (simp_all add: showFieldError_def Let_def calms)

lemma calm_validateField [calms]: "calm w v \<Longrightarrow> calm w (snd (validateField f v))"
  by (simp add: validateField_def Let_def calms)

lemma calm_validateAll [calms]: "calm w v \<Longrightarrow> calm w (snd (validateAll fs v))"
proof (induction fs arbitrary: v)
  case Nil
  then show ?case by simp
next
  case (Cons f fs)
  have "calm w (snd (validateAll fs (snd (validateField f v))))"
    by (rule Cons.IH) (simp add: Cons.prems calms)
  then show ?case by (simp add: split_def Let_def)
qed

lemma plainCallback_simps [simp]:
  "plainCallback (SettleCb e)" "plainCallback LoadingDoneCb"
  "plainCallback (SubmitResumeCb fm b t)" "plainCallback (NotifyInCb i)"
  "plainCallback (NotifyOutCb i)" "plainCallback (NotifyRemoveCb i)"
  "plainCallback (ModalInCb i)" "plainCallback (ModalRemoveCb i)"
  "\<not> plainCallback (RevealCb e)" "\<not> plainCallback (HeroCb e)"
  by (simp_all add: plainCallback_def)

lemma calm_showNotification [calms]: "calm w v \<Longrightarrow> calm w (showNotification m t v)"
  by (simp add: showNotification_def Let_def calms)

lemma calm_handleFormSubmission [calms]:
  "calm w v \<Longrightarrow> calm w (orElse (handleFormSubmission fm v) v)"
  by (cases "submitButton fm")
    (simp_all add: handleFormSubmission_def orElse_def Let_def split_def calms)

lemma calm_fold:
  "(\<And>x u. calm w u \<Longrightarrow> calm w (f x u)) \<Longrightarrow> calm w v \<Longrightarrow> calm w (fold f xs v)"
  by (induction xs arbitrary: v) simp_all

lemma calm_submitResumeCb [calms]: "calm w v \<Longrightarrow> calm w (submitResumeCb fm b t v)"
proof -
  assume c: "calm w v"
  have "calm w (fold (\<lambda>i. removeClass i [''success'']) (inputs fm)
          (resetForm fm (showNotification m ty v)))" for m ty
    by (rule calm_fold) (simp_all add: calms c resetForm_def)
  then show ?thesis by (simp add: submitResumeCb_def Let_def calms)
qed

lemma calm_runCallback [calms]:
  assumes "plainCallback cb" and "calm w v"
  shows "calm w (runCallback cb v)"
  using assms
  by (cases cb)
    (simp_all add: runCallback_def settleCb_def loadingDoneCb_def notifyInCb_def
      notifyOutCb_def notifyRemoveCb_def modalInCb_def modalRemoveCb_def calms)

lemma calm_smoothScroll [calms]: "calm w v \<Longrightarrow> calm w (smoothScroll l b v)"
  by (simp add: smoothScroll_def Let_def calms split: option.splits)

lemma calm_menuToggle [calms]: "calm w v \<Longrightarrow> calm w (menuToggle t m v)"
  by (simp add: menuToggle_def Let_def calms)

lemma calm_menuClose [calms]: "calm w v \<Longrightarrow> calm w (menuClose t m v)"
  by (simp add: menuClose_def calms)

lemma calm_highlight: "calm w v \<Longrightarrow> calm w (highlight c l v)"
  by (simp add: highlight_def Let_def calms)

lemma calm_updateActiveNavLink [calms]: "calm w v \<Longrightarrow> calm w (updateActiveNavLink c v)"
  unfolding updateActiveNavLink_def by (rule calm_fold) (simp_all add: calm_highlight)

lemma calm_projectLinkClick [calms]:
  "calm w v \<Longrightarrow> calm w (orElse (projectLinkClick h c v) v)"
  by (simp add: projectLinkClick_def orElse_def showProjectModal_def calms
      split: option.splits property.splits)

lemma calm_closeProjectModal [calms]: "calm w v \<Longrightarrow> calm w (closeProjectModal i v)"
  by (simp add: closeProjectModal_def calms)

lemma sweep_no_animator: "scrollAnimator v = None \<Longrightarrow> sweep v = v"
  by (simp add: sweep_def)

lemma calm_react:
  assumes "l \<noteq> AnimatorLoad" and "scrollAnimator v = None" and "calm w v"
  shows "calm w (react ev l v)"
  using assms
  by (cases l; cases ev) (simp_all add: react_def calms sweep_no_animator split: option.splits)

lemma calm_dispatch:
  assumes "AnimatorLoad \<notin> set ls" and "scrollAnimator w = None" and "calm w v"
  shows "calm w (fold (react ev) ls v)"
  using assms
proof (induction ls arbitrary: v)
  case Nil
  then show ?case by simp
next
  case (Cons l ls)
  from Cons.prems have "scrollAnimator v = None" by (simp add: calm_def)
  moreover from Cons.prems have "l \<noteq> AnimatorLoad" by auto
  ultimately have "calm w (react ev l v)" using Cons.prems(3) by (simp add: calm_react)
  with Cons show ?case by simp
qed

lemma calm_quiet: "calm w w1 \<Longrightarrow> quiet w \<Longrightarrow> quiet w1"
  using calm_plainTimers [of w w1] by (auto simp: quiet_def calm_def)

lemma quiet_step:
  assumes "quiet w"
  shows "quiet (step ev w) \<and> revealed (step ev w) = revealed w"
proof -
  have d: "calm w (dispatch e w)" for e
    unfolding dispatch_def using assms by (intro calm_dispatch calm_refl) (simp_all add: quiet_def)
  have c: "quiet v \<and> revealed v = revealed w" if "calm w v" for v
    using that assms calm_quiet [of w v] by (simp add: calm_def)
  have dflt: "quiet (dispatch e w) \<and> revealed (dispatch e w) = revealed w" for e
    by (rule c) (rule d)
  show ?thesis
  proof (cases ev)
    case StartAnimation
    with assms show ?thesis
      by (simp add: step_def newScrollAnimator_def createObserver_def quiet_def)
  next
    case StartApp
    from init_same [of w] show ?thesis unfolding StartApp using assms
      by (auto simp: step_def sameDocument_def quiet_def plainTimers_def revealed_def
          hasClass_def fun_eq_iff)
  next
    case (Intersect ens)
    with assms show ?thesis by (simp add: step_def quiet_def)
  next
    case (Timeout i)
    show ?thesis
    proof (cases "i < length (timers w)")
      case False
      with Timeout assms show ?thesis by (simp add: step_def)
    next
      case True
      let ?v = "w\<lparr>timers := take i (timers w) @ drop (Suc i) (timers w)\<rparr>"
      from assms True have p: "plainCallback (snd (timers w ! i))"
        by (simp add: quiet_def plainTimers_def list_all_length)
      have "set (take i (timers w) @ drop (Suc i) (timers w)) \<subseteq> set (timers w)"
        using set_take_subset [of i "timers w"] set_drop_subset [of "Suc i" "timers w"]
        by auto
      with assms have q: "quiet ?v"
        by (auto simp: quiet_def plainTimers_def list_all_iff)
      have r: "revealed ?v = revealed w"
        by (simp add: revealed_def hasClass_def fun_eq_iff)
      have cc: "calm ?v (runCallback (snd (timers w ! i)) ?v)"
        using p by (intro calm_runCallback calm_refl)
      from calm_quiet [OF cc q] have "quiet (runCallback (snd (timers w ! i)) ?v)" .
      moreover from cc have "revealed (runCallback (snd (timers w ! i)) ?v) = revealed ?v"
        by (simp add: calm_def)
      ultimately show ?thesis using r Timeout True by (simp add: step_def)
    qed
  next
    case (Relayout f)
    have "calm w (w\<lparr>rectTop := f\<rparr>)" by (intro calms calm_refl)
    from c [OF this] Relayout show ?thesis by (simp add: step_def)
  next
    case (InsertElements es)
    have "calm w (w\<lparr>elements := elements w @ es\<rparr>)" by (intro calms calm_refl)
    from c [OF this] InsertElements show ?thesis by (simp add: step_def)
  next
    case (Input f v)
    let ?v = "w\<lparr>fvalue := (fvalue w)(f := v)\<rparr>"
    have "calm w ?v" by (intro calms calm_refl)
    then have "calm w (fold (react (Input f v)) (listeners w) ?v)"
      using assms by (intro calm_dispatch) (simp_all add: quiet_def)
    from c [OF this] Input show ?thesis by (simp add: step_def dispatch_def)
  qed (simp_all add: step_def dflt)
qed

lemma quiet_run: "quiet w \<Longrightarrow> quiet (run evs w) \<and> revealed (run evs w) = revealed w"
proof (induction evs arbitrary: w)
  case Nil
  then show ?case by (simp add: run_def)
next
  case (Cons ev evs)
  from quiet_step [OF Cons.prems, of ev]
  have 1: "quiet (step ev w)" and 2: "revealed (step ev w) = revealed w" by simp_all
  from Cons.IH [OF 1] 2 show ?case by (simp add: run_def)
qed

section \<open>Claim C1: notifications of the visibility observer\<close>

text \<open>
  C1 says that the reveal handler runs exactly once per element, on the first delivery in
  which the element is intersecting, and never again. The callback of the observer calls
  \<^verbatim>\<open>handleIntersect\<close> for every intersecting entry and nothing ever unobserves an element,
  so the second half does not hold. What holds: the observer is created with threshold 0.1
  and no margin; a delivery schedules one reveal timer for
  each of its entries that is intersecting, in order, whatever was delivered or revealed
  before, and changes no class list; a reveal timer that fires adds \<^verbatim>\<open>animate-visible\<close>
  to the class list of its element when it is not there yet and leaves the class list as
  it is otherwise. So the handler runs on every entering, and only its effect on the class
  list is one-shot.
\<close>

theorem reveal_handler_every_entry:
  "createObserver (w\<lparr>hasIntersectionObserver := True\<rparr>) a
     = Inr (a\<lparr>observer := Some \<lparr>threshold = toDouble (1 / 10), rootMargin = ''0px'',
                                   targets = []\<rparr>\<rparr>)
   \<and> timers (observerCallback ens w) =
       timers w @ map (\<lambda>en. (delay (rectTop w (target en)), RevealCb (target en)))
                      (filter isIntersecting ens)
   \<and> classList (observerCallback ens w) = classList w
   \<and> classList (revealCb e w) = (classList w)(e := tokenAdd (classList w e) ''animate-visible'')
   \<and> classList (revealCb e (revealCb e w)) = classList (revealCb e w)"
  by (simp add: createObserver_def timers_observerCallback classList_observerCallback
      classList_revealCb tokenAdd_idem)

text \<open>
  C1, an instance: one delivery with element 1 intersecting twice and element 2 not
  intersecting schedules two reveal timers for element 1.
\<close>

theorem reveal_handler_every_entry_witness:
  "timers (observerCallback [\<lparr>target = 1, isIntersecting = True\<rparr>,
                             \<lparr>target = 2, isIntersecting = False\<rparr>,
                             \<lparr>target = 1, isIntersecting = True\<rparr>] page)
     = [(5, RevealCb 1), (5, RevealCb 1)]"
  using reveal_handler_every_entry
    [where w = page
       and ens = "[\<lparr>target = 1, isIntersecting = True\<rparr>, \<lparr>target = 2, isIntersecting = False\<rparr>,
                   \<lparr>target = 1, isIntersecting = True\<rparr>]"]
  by (simp add: page_def delay_350)

text \<open>
  C1 as stated fails on the page: element 1 enters the viewport and is revealed (its
  reveal timer fires, which schedules the settle timer), leaves, and enters again; the
  handler runs a second time and a second reveal timer is pending.
\<close>

theorem reveal_handler_one_shot_counterexample:
  "timers (run [StartAnimation, Resize,
               Intersect [\<lparr>target = 1, isIntersecting = True\<rparr>], Timeout 0,
               Intersect [\<lparr>target = 1, isIntersecting = False\<rparr>],
               Intersect [\<lparr>target = 1, isIntersecting = True\<rparr>]] page)
     = [(600, SettleCb 1), (5, RevealCb 1)]
   \<and> classList (run [StartAnimation, Resize,
                      Intersect [\<lparr>target = 1, isIntersecting = True\<rparr>], Timeout 0,
                      Intersect [\<lparr>target = 1, isIntersecting = False\<rparr>],
                      Intersect [\<lparr>target = 1, isIntersecting = True\<rparr>]] page) 1
     = [''animate-slide-up'', ''animate-visible'']"
  by (simp add: evalAnimator)

section \<open>Claim C2: the revealed class is never removed\<close>

text \<open>
  C2: once \<^verbatim>\<open>animate-visible\<close> is in the class list of an element, no operation of the
  program removes it, so the revealed flag of an element flips at most once. The
  operations are the events of the event loop above: every handler and timer callback of
  the two source files that writes a class list (the other handlers write inline styles
  or elements they created themselves). If the element is revealed after some events, it
  is still revealed after any further events.
\<close>

theorem revealed_never_reverts:
  "revealed (run evs w) e \<Longrightarrow> revealed (run (evs @ later) w) e"
  by (simp add: run_def revealed_run [unfolded run_def])

text \<open>
  C2, an instance: element 1 is revealed by its timer, then leaves the viewport, is
  settled, the form is validated and submitted, the page loads and is resized.
\<close>

theorem revealed_never_reverts_witness:
  "revealed (run [StartAnimation, Resize, Intersect [\<lparr>target = 1, isIntersecting = True\<rparr>],
                  Timeout 0] page) 1
   \<and> revealed (run ([StartAnimation, Resize, Intersect [\<lparr>target = 1, isIntersecting = True\<rparr>],
                      Timeout 0]
                     @ [Intersect [\<lparr>target = 1, isIntersecting = False\<rparr>], Timeout 0, StartApp,
                        Blur 4, Submit, Load, Resize]) page) 1"
proof -
  have 1: "revealed (run [StartAnimation, Resize,
                          Intersect [\<lparr>target = 1, isIntersecting = True\<rparr>], Timeout 0] page) 1"
    by (simp add: evalAnimator revealed_def)
  from revealed_never_reverts [OF 1] 1 show ?thesis by blast
qed

section \<open>Claim C3: the stagger delay\<close>

text \<open>
  C3 says that the delay is (y mod 300) times 0.1 for every offset y. The handler
  schedules exactly one timer, with the delay \<^verbatim>\<open>(rect.top % 300) * 0.1\<close> of number
  arithmetic: the remainder has the sign of the offset, 0.1 is the number nearest to one
  tenth and the product is rounded to a number. This delay is less than \<open>2 ^ - 47\<close> away
  from a tenth of the exact remainder. For an offset that is not negative the remainder
  is the modulus, so the delay is the product of the modulus and 0.1 in number arithmetic,
  and less than \<open>2 ^ - 47\<close> away from the value of the specification, without being
  equal to it in general: the offsets 350 and 1000 give 5 and 10, the offset 3 gives
  0.30000000000000004. For a negative offset the delay is not positive, and below the
  value of the specification unless the offset is a multiple of 300.
\<close>

theorem stagger_delay:
  "timers (handleIntersect e w) = timers w @ [(delay (rectTop w e), RevealCb e)]
   \<and> \<bar>delay (rectTop w e) - jsRem (rectTop w e) 300 * (1 / 10)\<bar> < 1 / 2 ^ 47
   \<and> (0 \<le> rectTop w e \<longrightarrow>
        delay (rectTop w e)
          = multiply (toDouble (flooredMod (rectTop w e) 300)) (toDouble (1 / 10))
        \<and> \<bar>delay (rectTop w e) - specDelay (rectTop w e)\<bar> < 1 / 2 ^ 47)
   \<and> (rectTop w e = 350 \<longrightarrow> timers (handleIntersect e w) = timers w @ [(5, RevealCb e)])
   \<and> (rectTop w e = 1000 \<longrightarrow> timers (handleIntersect e w) = timers w @ [(10, RevealCb e)])
   \<and> (rectTop w e = 3 \<longrightarrow>
        timers (handleIntersect e w)
          = timers w @ [(1351079888211149 / 4503599627370496, RevealCb e)])
   \<and> (rectTop w e < 0 \<longrightarrow>
        delay (rectTop w e) \<le> 0
        \<and> (flooredMod (rectTop w e) 300 \<noteq> 0 \<longrightarrow> delay (rectTop w e) < specDelay (rectTop w e)))"
proof -
  have 1: "timers (handleIntersect e w) = timers w @ [(delay (rectTop w e), RevealCb e)]"
    by (simp add: handleIntersect_def setTimeout_def)
  have 2: "\<bar>delay (rectTop w e) - jsRem (rectTop w e) 300 * (1 / 10)\<bar> < 1 / 2 ^ 47"
    by (rule delay_error)
  have 3: "delay (rectTop w e)
             = multiply (toDouble (flooredMod (rectTop w e) 300)) (toDouble (1 / 10))
           \<and> \<bar>delay (rectTop w e) - specDelay (rectTop w e)\<bar> < 1 / 2 ^ 47"
    if "0 \<le> rectTop w e"
    using that 2 delay_nonneg_offset [OF that] by (simp add: specDelay_def jsRem_nonneg)
  have 4: "delay (rectTop w e) \<le> 0
           \<and> (flooredMod (rectTop w e) 300 \<noteq> 0 \<longrightarrow> delay (rectTop w e) < specDelay (rectTop w e))"
    if "rectTop w e < 0"
    using delay_neg_offset [OF that] flooredMod_range [of "rectTop w e"]
    by (simp add: specDelay_def)
  have 5: "timers (handleIntersect e w) = timers w @ [(5, RevealCb e)]" if "rectTop w e = 350"
    using 1 that by (simp add: delay_350)
  have 6: "timers (handleIntersect e w) = timers w @ [(10, RevealCb e)]"
    if "rectTop w e = 1000"
    using 1 that by (simp add: delay_1000)
  have 7: "timers (handleIntersect e w)
             = timers w @ [(1351079888211149 / 4503599627370496, RevealCb e)]"
    if "rectTop w e = 3"
    using 1 that by (simp add: delay_3)
  show ?thesis using 1 2 3 4 5 6 7 by blast
qed

text \<open>C3, instances: the offsets 350, 1000, 3 and -50.\<close>

theorem stagger_delay_witness:
  "0 \<le> rectTop page 1 \<and> rectTop page 1 = 350
   \<and> timers (handleIntersect 1 page) = [(5, RevealCb 1)] \<and> specDelay 350 = 5
   \<and> 0 \<le> rectTop page 2 \<and> rectTop page 2 = 1000
   \<and> timers (handleIntersect 2 page) = [(10, RevealCb 2)] \<and> specDelay 1000 = 10
   \<and> rectTop (page\<lparr>rectTop := (\<lambda>e. 3)\<rparr>) 1 = 3
   \<and> timers (handleIntersect 1 (page\<lparr>rectTop := (\<lambda>e. 3)\<rparr>))
       = [(1351079888211149 / 4503599627370496, RevealCb 1)]
   \<and> rectTop (page\<lparr>rectTop := (\<lambda>e. - 50)\<rparr>) 1 < 0
   \<and> flooredMod (rectTop (page\<lparr>rectTop := (\<lambda>e. - 50)\<rparr>) 1) 300 \<noteq> 0
   \<and> timers (handleIntersect 1 (page\<lparr>rectTop := (\<lambda>e. - 50)\<rparr>)) = [(- 5, RevealCb 1)]
   \<and> delay (- 50) < specDelay (- 50)"
proof -
  have s: "specDelay 350 = 5" "specDelay 1000 = 10" "flooredMod (- 50) 300 = 250"
    by code_simp+
  show ?thesis
    using stagger_delay [of 1 page] stagger_delay [of 2 page]
      stagger_delay [of 1 "page\<lparr>rectTop := (\<lambda>e. 3)\<rparr>"]
      stagger_delay [of 1 "page\<lparr>rectTop := (\<lambda>e. - 50)\<rparr>"]
    by (simp add: page_def s delay_350 delay_1000 delay_3 delay_minus_50)
qed

text \<open>
  C3 as stated fails for an element whose top edge is 50 pixels above the viewport: the
  scheduled delay is -5, the value of the specification is 25, whether its product is
  exact or that of number arithmetic. With the exact product it also fails at the offset
  3, where the value of the specification is three tenths.
\<close>

theorem stagger_delay_counterexample:
  "timers (handleIntersect 1 (page\<lparr>rectTop := (\<lambda>e. - 50)\<rparr>)) = [(- 5, RevealCb 1)]
   \<and> specDelay (- 50) = 25
   \<and> multiply (toDouble (flooredMod (- 50) 300)) (toDouble (1 / 10)) = 25
   \<and> timers (handleIntersect 1 (page\<lparr>rectTop := (\<lambda>e. 3)\<rparr>))
       = [(1351079888211149 / 4503599627370496, RevealCb 1)]
   \<and> specDelay 3 = 3 / 10"
proof -
  have "specDelay (- 50) = 25" "specDelay 3 = 3 / 10"
    "multiply (toDouble (flooredMod (- 50) 300)) (toDouble (1 / 10)) = 25"
    by code_simp+
  then show ?thesis
    by (simp add: handleIntersect_def setTimeout_def page_def delay_minus_50 delay_3)
qed

section \<open>Claim C4: no intersection observer in the environment\<close>

text \<open>
  C4 says that without the observation primitive the animator does not crash and reveals
  every trackable element at once. The code has no such fallback: \<^verbatim>\<open>createObserver\<close>
  evaluates \<^verbatim>\<open>new IntersectionObserver\<close> unguarded. What holds: without the primitive,
  creating the observer throws a \<^verbatim>\<open>ReferenceError\<close>, the construction of the animator
  fails with it, and the handler that constructs it leaves the page as it was; and on a
  page where the animator was never constructed (no animator, no load listener of it, no
  pending reveal timer) no sequence of events reveals any element.
\<close>

theorem no_observer_throws:
  assumes "\<not> hasIntersectionObserver w"
  shows "createObserver w a = Inl ReferenceError
       \<and> newScrollAnimator w = Inl ReferenceError
       \<and> step StartAnimation w = w
       \<and> (scrollAnimator w = None \<and> AnimatorLoad \<notin> set (listeners w) \<and> plainTimers w
            \<longrightarrow> revealed (run evs w) = revealed w)"
  using assms quiet_run [of w evs]
  by (simp add: createObserver_def newScrollAnimator_def step_def quiet_def)

text \<open>
  C4, an instance: on the concrete page without the primitive the construction throws,
  and loading, resizing, intersecting and using the form reveal nothing.
\<close>

theorem no_observer_throws_witness:
  "\<not> hasIntersectionObserver (page\<lparr>hasIntersectionObserver := False\<rparr>)
   \<and> newScrollAnimator (page\<lparr>hasIntersectionObserver := False\<rparr>) = Inl ReferenceError
   \<and> revealed (run [StartAnimation, StartApp, DOMContentLoaded, Load, Resize,
                    Intersect [\<lparr>target = 1, isIntersecting = True\<rparr>], Blur 4, Submit,
                    Timeout 0]
                (page\<lparr>hasIntersectionObserver := False\<rparr>))
       = revealed (page\<lparr>hasIntersectionObserver := False\<rparr>)
   \<and> \<not> revealed (page\<lparr>hasIntersectionObserver := False\<rparr>) 1"
proof -
  let ?p = "page\<lparr>hasIntersectionObserver := False\<rparr>"
  have 1: "\<not> hasIntersectionObserver ?p" by simp
  have 2: "scrollAnimator ?p = None \<and> AnimatorLoad \<notin> set (listeners ?p) \<and> plainTimers ?p"
    by (simp add: page_def plainTimers_def)
  have 3: "\<not> revealed ?p 1" by (simp add: page_def revealed_def hasClass_def)
  from no_observer_throws [OF 1] 1 2 3 show ?thesis by blast
qed

text \<open>
  C4 as stated fails on the concrete page without the primitive: the construction throws,
  and after the page has loaded and has been resized element 1 still has only its
  animation class.
\<close>

theorem no_observer_counterexample:
  "newScrollAnimator (page\<lparr>hasIntersectionObserver := False\<rparr>) = Inl ReferenceError
   \<and> classList (run [StartAnimation, DOMContentLoaded, Load, Resize, Timeout 0]
                 (page\<lparr>hasIntersectionObserver := False\<rparr>)) 1 = [''animate-slide-up'']"
  by (simp add: evalAnimator)

section \<open>Claim C5: classification of an e-mail field on blur\<close>

text \<open>
  C5: on blur a field of type email is marked \<^verbatim>\<open>error\<close> exactly when its trimmed value
  does not match the pattern, and \<^verbatim>\<open>success\<close> exactly when it does; the value
  \<^verbatim>\<open>not-an-email\<close> is marked error and \<^verbatim>\<open>a@b.co\<close> is marked success.
\<close>

theorem email_blur_examples:
  assumes "field \<in> set (inputs fm)" and "ftype w field = ''email''"
  shows "hasClass (react (Blur field) (FormHandler fm) w) field ''error''
           = (\<not> test emailRegex (trim (fvalue w field)))
       \<and> hasClass (react (Blur field) (FormHandler fm) w) field ''success''
           = test emailRegex (trim (fvalue w field))
       \<and> (fvalue w field = js ''not-an-email'' \<longrightarrow>
            hasClass (react (Blur field) (FormHandler fm) w) field ''error''
            \<and> \<not> hasClass (react (Blur field) (FormHandler fm) w) field ''success'')
       \<and> (fvalue w field = js ''a@b.co'' \<longrightarrow>
            hasClass (react (Blur field) (FormHandler fm) w) field ''success''
            \<and> \<not> hasClass (react (Blur field) (FormHandler fm) w) field ''error'')"
proof -
  have r: "react (Blur field) (FormHandler fm) w = snd (validateField field w)"
    using assms(1) by (simp add: react_def)
  have v: "fst (validateField field w) = test emailRegex (trim (fvalue w field))"
    using assms(2) test_email_empty by (auto simp: validateField_fst)
  show ?thesis
    by (simp add: r validateField_marks v trim_not_an_email trim_a_b_co test_not_an_email
        test_a_b_co)
qed

text \<open>C5, an instance: the e-mail input of the concrete page with each of the two values.\<close>

theorem email_blur_examples_witness:
  "4 \<in> set (inputs contact) \<and> ftype page 4 = ''email'' \<and> fvalue page 4 = js ''a@b.co''
   \<and> hasClass (react (Blur 4) (FormHandler contact) page) 4 ''success''
   \<and> \<not> hasClass (react (Blur 4) (FormHandler contact) page) 4 ''error''
   \<and> hasClass (react (Blur 4) (FormHandler contact)
                 (page\<lparr>fvalue := (\<lambda>e. js ''not-an-email'')\<rparr>)) 4 ''error''
   \<and> \<not> hasClass (react (Blur 4) (FormHandler contact)
                   (page\<lparr>fvalue := (\<lambda>e. js ''not-an-email'')\<rparr>)) 4 ''success''"
proof -
  let ?bad = "page\<lparr>fvalue := (\<lambda>e. js ''not-an-email'')\<rparr>"
  have 1: "4 \<in> set (inputs contact)" by (simp add: contact_def)
  have 2: "ftype page 4 = ''email''" and 3: "fvalue page 4 = js ''a@b.co''"
    by (simp_all add: page_def)
  have 4: "ftype ?bad 4 = ''email''" and 5: "fvalue ?bad 4 = js ''not-an-email''"
    by (simp_all add: page_def)
  from email_blur_examples [OF 1 2] 3
  have "hasClass (react (Blur 4) (FormHandler contact) page) 4 ''success''
        \<and> \<not> hasClass (react (Blur 4) (FormHandler contact) page) 4 ''error''"
    by blast
  moreover from email_blur_examples [OF 1 4] 5
  have "hasClass (react (Blur 4) (FormHandler contact) ?bad) 4 ''error''
        \<and> \<not> hasClass (react (Blur 4) (FormHandler contact) ?bad) 4 ''success''"
    by blast
  ultimately show ?thesis using 1 2 3 by simp
qed

section \<open>Claim C6: submitting a valid form\<close>

text \<open>
  C6: when the form has a submit button and every field validates, the submission disables
  the button, sets its label to \<^verbatim>\<open>Sending...\<close> and schedules one continuation after 2000
  ms, showing no banner and leaving the values alone; the continuation, whenever it runs,
  restores the label the button had at the submission, enables the button, shows the
  success banner in place of any banner shown before, and leaves every input with its
  default value and without the \<^verbatim>\<open>success\<close> mark.
\<close>

theorem valid_submission:
  assumes "submitButton fm = Some b"
    and "list_all (\<lambda>i. fst (validateField i w)) (inputs fm)"
  shows "\<exists>w1. handleFormSubmission fm w = Inr w1
           \<and> disabled w1 b \<and> textContent w1 b = ''Sending...''
           \<and> timers w1 = timers w @ [(2000, SubmitResumeCb fm b (textContent w b))]
           \<and> notifications w1 = notifications w \<and> fvalue w1 = fvalue w
           \<and> textContent (runCallback (SubmitResumeCb fm b (textContent w b)) v) b
               = textContent w b
           \<and> \<not> disabled (runCallback (SubmitResumeCb fm b (textContent w b)) v) b
           \<and> notifications (runCallback (SubmitResumeCb fm b (textContent w b)) v)
               = drop 1 (notifications v)
                 @ [banner (nextId v) ''success''
                      ''Message sent successfully! I'll get back to you soon.'']
           \<and> list_all (\<lambda>i. fvalue (runCallback (SubmitResumeCb fm b (textContent w b)) v) i
                             = defaultValue v i
                           \<and> \<not> hasClass (runCallback (SubmitResumeCb fm b (textContent w b)) v)
                                 i ''success'')
                 (inputs fm)"
proof -
  let ?w1 = "snd (validateAll (inputs fm) w)"
  have ok: "fst (validateAll (inputs fm) w)"
    using assms(2) by (simp add: validateAll_result)
  have m: "onlyMarks w ?w1" by (simp add: validateAll_result)
  have h: "handleFormSubmission fm w =
      Inr (setTimeout (SubmitResumeCb fm b (textContent w b)) 2000
             (?w1\<lparr>textContent := (textContent ?w1)(b := ''Sending...''),
                   disabled := (disabled ?w1)(b := True)\<rparr>))"
    using assms(1) ok by (simp add: handleFormSubmission_def Let_def split_def)
  have r: "runCallback (SubmitResumeCb fm b t) v = submitResumeCb fm b t v" for t
    by (simp add: runCallback_def)
  show ?thesis
    using m unfolding h r
    by (simp add: setTimeout_def onlyMarks_def submitResumeCb_effect list_all_iff)
qed

text \<open>C6, an instance: the contact form of the concrete page.\<close>

theorem valid_submission_witness:
  "submitButton contact = Some 6
   \<and> list_all (\<lambda>i. fst (validateField i page)) (inputs contact)
   \<and> (\<exists>w1. handleFormSubmission contact page = Inr w1
          \<and> disabled w1 6 \<and> textContent w1 6 = ''Sending...''
          \<and> timers w1 = timers page @ [(2000, SubmitResumeCb contact 6 (textContent page 6))])
   \<and> textContent page 6 = ''Send Message''
   \<and> textContent (runCallback (SubmitResumeCb contact 6 (textContent page 6)) page) 6
       = textContent page 6"
proof -
  have 1: "submitButton contact = Some 6" by (simp add: contact_def)
  have 2: "textContent page 6 = ''Send Message''" by (simp add: page_def)
  from valid_submission [OF 1 page_fields_valid, of page] 1 2 page_fields_valid
  show ?thesis by blast
qed

section \<open>Claim C7: submitting an invalid form\<close>

text \<open>
  C7: when the form has a submit button and some field fails validation, the submission
  shows the error banner and stops: the button is neither disabled nor relabelled, no value
  changes, and the only timers added are the two of the banner (slide in after 100 ms,
  slide out after 5000 ms, which schedules the removal 300 ms later); no continuation of
  the submission is scheduled.
\<close>

theorem invalid_submission:
  assumes "submitButton fm = Some b"
    and "\<not> list_all (\<lambda>i. fst (validateField i w)) (inputs fm)"
  shows "\<exists>w1. handleFormSubmission fm w = Inr w1
           \<and> disabled w1 = disabled w \<and> textContent w1 = textContent w
           \<and> fvalue w1 = fvalue w
           \<and> notifications w1
               = drop 1 (notifications w)
                 @ [banner (nextId w) ''error'' ''Please fix the errors in the form'']
           \<and> timers w1 = timers w @ [(100, NotifyInCb (nextId w)), (5000, NotifyOutCb (nextId w))]
           \<and> timers (runCallback (NotifyOutCb (nextId w)) w1)
               = timers w1 @ [(300, NotifyRemoveCb (nextId w))]
           \<and> list_all (\<lambda>n. nid n \<noteq> nextId w)
                 (notifications (runCallback (NotifyRemoveCb (nextId w)) w1))"
proof -
  let ?w1 = "snd (validateAll (inputs fm) w)"
  have bad: "\<not> fst (validateAll (inputs fm) w)"
    using assms(2) by (simp add: validateAll_result)
  have m: "onlyMarks w ?w1" by (simp add: validateAll_result)
  have h: "handleFormSubmission fm w =
      Inr (showNotification ''Please fix the errors in the form'' ''error'' ?w1)"
    using assms(1) bad by (simp add: handleFormSubmission_def Let_def split_def)
  show ?thesis
    using m unfolding h
    by (simp add: onlyMarks_def showNotification_effect showNotification_frame
        runCallback_def notifyOutCb_def notifyRemoveCb_def setTimeout_def list_all_iff)
qed

text \<open>C7, an instance: the contact form with \<^verbatim>\<open>not-an-email\<close> in every input.\<close>

theorem invalid_submission_witness:
  "submitButton contact = Some 6
   \<and> \<not> list_all (\<lambda>i. fst (validateField i (page\<lparr>fvalue := (\<lambda>e. js ''not-an-email'')\<rparr>)))
          (inputs contact)
   \<and> (\<exists>w1. handleFormSubmission contact (page\<lparr>fvalue := (\<lambda>e. js ''not-an-email'')\<rparr>) = Inr w1
          \<and> disabled w1 = disabled (page\<lparr>fvalue := (\<lambda>e. js ''not-an-email'')\<rparr>)
          \<and> textContent w1 = textContent (page\<lparr>fvalue := (\<lambda>e. js ''not-an-email'')\<rparr>)
          \<and> fvalue w1 = fvalue (page\<lparr>fvalue := (\<lambda>e. js ''not-an-email'')\<rparr>))"
proof -
  let ?bad = "page\<lparr>fvalue := (\<lambda>e. js ''not-an-email'')\<rparr>"
  have 1: "submitButton contact = Some 6" by (simp add: contact_def)
  have "ftype ?bad 4 = ''email''" "fvalue ?bad 4 = js ''not-an-email''"
    by (simp_all add: page_def)
  then have 2: "\<not> list_all (\<lambda>i. fst (validateField i ?bad)) (inputs contact)"
    by (simp add: contact_def validateField_fst trim_not_an_email test_not_an_email)
  from invalid_submission [OF 1 2] 1 2 show ?thesis by blast
qed

section \<open>Claim C8: registration is idempotent\<close>

text \<open>
  C8: from a page on which the animator has not been constructed, after any sequence of
  events (construction, sweeps on load and on resize, insertions of elements between them,
  and everything else) the calls of \<^verbatim>\<open>observe\<close> made on the observer of the animator
  are for pairwise different elements, and these are the elements of
  \<^verbatim>\<open>animatedElements\<close>: no element is registered a second time.
\<close>

theorem sweeps_register_once:
  assumes "scrollAnimator w = None"
  shows "case scrollAnimator (run evs w) of
           None \<Rightarrow> True
         | Some a \<Rightarrow>
             (case observer a of
                None \<Rightarrow> False
              | Some ob \<Rightarrow> targets ob = animatedElements a \<and> distinct (targets ob))"
proof -
  have "animatorOK v \<Longrightarrow> animatorOK (fold step evs v)" for v
    by (induction evs arbitrary: v) (simp_all add: step_animatorOK)
  moreover from assms have "animatorOK w" by (simp add: animatorOK_def)
  ultimately have "animatorOK (run evs w)" by (simp add: run_def)
  then show ?thesis by (auto simp: animatorOK_def registered_def split: option.splits)
qed

text \<open>
  C8, an instance: a sweep on load, one on resize, the two trackable elements inserted
  once more, another resize; elements 1 and 2 are registered once each.
\<close>

theorem sweeps_register_once_witness:
  "scrollAnimator page = None
   \<and> (case scrollAnimator (run [StartAnimation, DOMContentLoaded, Resize,
                                 InsertElements [2, 1], Resize] page) of
         None \<Rightarrow> True
       | Some a \<Rightarrow>
           (case observer a of
              None \<Rightarrow> False
            | Some ob \<Rightarrow> targets ob = animatedElements a \<and> distinct (targets ob)))
   \<and> map_option (map_option targets \<circ> observer)
        (scrollAnimator (run [StartAnimation, DOMContentLoaded, Resize, InsertElements [2, 1],
                              Resize] page))
       = Some (Some [1, 2])"
proof -
  have 1: "scrollAnimator page = None" by (simp add: page_def)
  have 2: "map_option (map_option targets \<circ> observer)
        (scrollAnimator (run [StartAnimation, DOMContentLoaded, Resize, InsertElements [2, 1],
                              Resize] page))
       = Some (Some [1, 2])"
    by (simp add: evalAnimator)
  from sweeps_register_once [OF 1] 1 2 show ?thesis by blast
qed

section \<open>Claim C9: the project modal\<close>

text \<open>
  C9 says that a click on a project link with an empty target opens the modal with the
  record of the card's title, and with the default detail block for a title that is not a
  key of the table. The lookup \<^verbatim>\<open>projectDetails[title] || defaultDetail\<close> also finds the
  properties that the object inherits, so for the card titled \<^verbatim>\<open>constructor\<close>, which is
  not a key, the details are the inherited function and not the default block, and
  building the modal throws on its missing feature list: no modal is shown. Moreover the
  initialisation of the application throws in \<^verbatim>\<open>initializeThemeManager\<close>, before the click
  listener is registered, so on the page as it is started a click on the link of a card
  whose title is a key opens no modal either.
\<close>

theorem project_modal_defects:
  "map_of projectDetails (title oddCard) = None
   \<and> details (getProjectData oddCard) = Inherited ''constructor''
   \<and> details (getProjectData oddCard) \<noteq> Own (defaultDetail (description oddCard))
   \<and> projectLinkClick (Some ''#'') (Some oddCard) page = Inl TypeError
   \<and> modals (react (ProjectLinkClick (Some ''#'') (Some oddCard)) ProjectModals page) = []
   \<and> snd (init page) = Some TypeError
   \<and> modals (run [StartApp, ProjectLinkClick (Some ''#'') (Some shopCard)] page) = []"
proof -
  have "ProjectModals \<notin> set (listeners page)" and "modals page = []"
    by (simp_all add: page_def)
  then have "modals (run [StartApp, ProjectLinkClick (Some ''#'') (Some shopCard)] page) = []"
    by (simp add: modal_never_opens)
  moreover have "snd (init page) = Some TypeError"
    by (simp add: init_stops_before_modals)
  ultimately show ?thesis
    by (simp add: oddCard_def projectDetails_def getProjectData_def getProperty_def
        objectPrototype_def projectLinkClick_def showProjectModal_def react_def orElse_def
        page_def)
qed

section \<open>Claim C10: validation uses the trimmed value\<close>

text \<open>
  C10: on blur, a required field whose value is only white space is marked \<^verbatim>\<open>error\<close>
  and not \<^verbatim>\<open>success\<close>; and white space added before and after the value of a field
  (of type email or any other) changes neither the class lists nor the error messages that
  the blur handler leaves behind.
\<close>

theorem blur_uses_trimmed_value:
  assumes "field \<in> set (inputs fm)"
    and "list_all isWhiteSpace l" and "list_all isWhiteSpace r"
  shows "(required w field \<and> list_all isWhiteSpace (fvalue w field) \<longrightarrow>
            hasClass (react (Blur field) (FormHandler fm) w) field ''error''
            \<and> \<not> hasClass (react (Blur field) (FormHandler fm) w) field ''success'')
       \<and> classList (react (Blur field) (FormHandler fm)
                      (w\<lparr>fvalue := (fvalue w)(field := l @ fvalue w field @ r)\<rparr>))
           = classList (react (Blur field) (FormHandler fm) w)
       \<and> fieldErrors (react (Blur field) (FormHandler fm)
                        (w\<lparr>fvalue := (fvalue w)(field := l @ fvalue w field @ r)\<rparr>))
           = fieldErrors (react (Blur field) (FormHandler fm) w)"
proof -
  let ?w1 = "w\<lparr>fvalue := (fvalue w)(field := l @ fvalue w field @ r)\<rparr>"
  have r: "react (Blur field) (FormHandler fm) v = snd (validateField field v)" for v
    using assms(1) by (simp add: react_def)
  have t: "trim (l @ fvalue w field @ r) = trim (fvalue w field)"
    using assms(2,3) by (rule trim_padding)
  have 1: "\<not> fst (validateField field w)"
    if "required w field" and "list_all isWhiteSpace (fvalue w field)"
    using that by (simp add: validateField_fst trim_all_whitespace)
  then have a: "required w field \<and> list_all isWhiteSpace (fvalue w field) \<longrightarrow>
      hasClass (snd (validateField field w)) field ''error''
      \<and> \<not> hasClass (snd (validateField field w)) field ''success''"
    by (simp add: validateField_marks)
  have b: "classList (snd (validateField field ?w1)) = classList (snd (validateField field w))"
    by (rule validateField_same_trim [OF t])
  have c: "fieldErrors (snd (validateField field ?w1)) = fieldErrors (snd (validateField field w))"
    by (rule validateField_same_trim [OF t])
  show ?thesis
    unfolding r by (rule conjI [OF a conjI [OF b c]])
qed

text \<open>
  C10, an instance: the required name input holding a space, a no-break space and a tab,
  and the e-mail input with white space around \<^verbatim>\<open>a@b.co\<close>.
\<close>

theorem blur_uses_trimmed_value_witness:
  "3 \<in> set (inputs contact) \<and> list_all isWhiteSpace [32, 9] \<and> list_all isWhiteSpace [10]
   \<and> required (page\<lparr>fvalue := (\<lambda>e. [32, 160, 9])\<rparr>) 3
   \<and> list_all isWhiteSpace (fvalue (page\<lparr>fvalue := (\<lambda>e. [32, 160, 9])\<rparr>) 3)
   \<and> hasClass (react (Blur 3) (FormHandler contact) (page\<lparr>fvalue := (\<lambda>e. [32, 160, 9])\<rparr>))
        3 ''error''
   \<and> classList (react (Blur 4) (FormHandler contact)
                  (page\<lparr>fvalue := (fvalue page)(4 := [32, 9] @ fvalue page 4 @ [10])\<rparr>))
       = classList (react (Blur 4) (FormHandler contact) page)"
proof -
  let ?blank = "page\<lparr>fvalue := (\<lambda>e. [32, 160, 9])\<rparr>"
  have 1: "3 \<in> set (inputs contact)" and 2: "4 \<in> set (inputs contact)"
    by (simp_all add: contact_def)
  have 3: "list_all isWhiteSpace [32, 9]" and 4: "list_all isWhiteSpace [10]"
    by (simp_all add: isWhiteSpace_def)
  have 5: "required ?blank 3" by (simp add: page_def)
  have 6: "list_all isWhiteSpace (fvalue ?blank 3)" by (simp add: isWhiteSpace_def)
  from blur_uses_trimmed_value [OF 1 3 4, of ?blank] 5 6
  have "hasClass (react (Blur 3) (FormHandler contact) ?blank) 3 ''error''"
    by blast
  moreover from blur_uses_trimmed_value [OF 2 3 4, of page]
  have "classList (react (Blur 4) (FormHandler contact)
                  (page\<lparr>fvalue := (fvalue page)(4 := [32, 9] @ fvalue page 4 @ [10])\<rparr>))
       = classList (react (Blur 4) (FormHandler contact) page)"
    by blast
  ultimately show ?thesis using 1 3 4 5 6 by simp
qed

end
